theory Spec2Isabelle
  imports Main "HOL-Library.Char_ord" "HOL-Library.List_Lexorder"
begin

unbundle bit_operations_syntax

section \<open>The column schema of \<^verbatim>\<open>DataOps/cleandata.py\<close>\<close>

definition ID_COL :: "string list" where
  "ID_COL = [''gtin'']"

definition TEXT_COLS :: "string list" where
  "TEXT_COLS = [''category_name'', ''product_name'', ''ingredients_text'']"

definition NUTRIENT_COLS :: "string list" where
  "NUTRIENT_COLS =
    [''calories'', ''total_fat'', ''sat_fat'', ''trans_fat'', ''unsat_fat'',
     ''cholesterol'', ''sodium'', ''carbs'', ''dietary_fiber'',
     ''total_sugars'', ''added_sugars'', ''protein'', ''potassium'']"

definition TAG_COLS :: "string list" where
  "TAG_COLS =
    [''is_whole_grain'', ''is_omega_three'', ''is_healthy_oils'', ''is_healthy_fats'',
     ''is_seed_oil'', ''is_refined_grains'', ''is_deep_fried'', ''is_sugars_added'',
     ''is_artificial_sweeteners'', ''is_artificial_flavors'',
     ''is_artificial_preservatives'', ''is_artificial_colors'',
     ''is_artificial_red_color'', ''is_ph_oil'', ''is_aspartame'',
     ''is_acesulfame_potassium'', ''is_saccharin'', ''is_corn_syrup'',
     ''is_brominated_vegetable_oil'', ''is_potassium_bromate'',
     ''is_titanium_dioxide'', ''is_phosphate_additives'', ''is_polysorbate60'',
     ''is_mercury_fish'', ''is_caregeenan'', ''is_natural_non_kcal_sweeteners'',
     ''is_natural_additives'', ''is_unspecific_ingredient'', ''is_propellant'',
     ''is_starch'', ''is_active_live_cultures'']"

definition FLAG_COLS :: "string list" where
  "FLAG_COLS =
    [''flag_calorie_mismatch'', ''flag_fat_mismatch'', ''flag_carb_mismatch'',
     ''flag_sugar_mismatch'', ''flag_missing_added_sugars'', ''flag_extra_added_sugars'',
     ''flag_low_sodium'', ''flag_high_sodium'', ''flag_negative_values'',
     ''flag_type_error'']"

definition LABEL :: string where
  "LABEL = ''label_is_anomaly''"

definition COLS_TO_KEEP :: "string list" where
  "COLS_TO_KEEP = ID_COL @ TEXT_COLS @ NUTRIENT_COLS @ TAG_COLS @ FLAG_COLS @ [LABEL]"

text \<open>The columns of the schema without the label column.\<close>

definition SCHEMA :: "string list" where
  "SCHEMA = ID_COL @ TEXT_COLS @ NUTRIENT_COLS @ TAG_COLS @ FLAG_COLS"

section \<open>Tables\<close>

text \<open>
  A cell of a pandas table. \<open>NaN\<close> is the missing value of an object or float column,
  \<open>PdNA\<close> the missing value of a column of dtype \<^verbatim>\<open>"string"\<close>; both are null for
  \<^verbatim>\<open>isna\<close>, \<^verbatim>\<open>notna\<close>, \<^verbatim>\<open>dropna\<close> and \<^verbatim>\<open>fillna\<close>. \<open>IntV\<close> is an integer,
  \<open>NumV\<close> a numeric value as \<^verbatim>\<open>pd.to_numeric\<close> produces it or as a float column holds
  it; the type \<open>'n\<close> of these values is left open.
\<close>

datatype 'n cell = NaN | PdNA | Str string | IntV int | NumV 'n | BoolV bool

text \<open>
  A table is its list of column names and its rows in order; a row maps a column name to
  a cell. A row that has no entry for a column reads as a missing value there
  (\<open>cell_of\<close>), as pandas fills a record that lacks a key. Index labels are not modelled:
  every operation of \<^verbatim>\<open>clean\<close> is element-wise on one row or selects and reorders whole
  rows. Nor is a table with two columns of one name: a row has one cell per name.
\<close>

type_synonym 'n row = "string \<rightharpoonup> 'n cell"

record 'n dataframe =
  columns :: "string list"
  rows :: "'n row list"

definition cell_of :: "'n row \<Rightarrow> string \<Rightarrow> 'n cell" where
  "cell_of r c = (case r c of None \<Rightarrow> NaN | Some x \<Rightarrow> x)"

definition len :: "'n dataframe \<Rightarrow> int" where
  "len df = int (length (rows df))"

fun isna :: "'n cell \<Rightarrow> bool" where
  "isna NaN = True"
| "isna PdNA = True"
| "isna _ = False"

definition fillna :: "'n cell \<Rightarrow> 'n cell \<Rightarrow> 'n cell" where
  "fillna v x = (if isna x then v else x)"

text \<open>\<^verbatim>\<open>df[keep]\<close>: the listed columns, in the listed order.\<close>

definition select_columns :: "string list \<Rightarrow> 'n dataframe \<Rightarrow> 'n dataframe" where
  "select_columns keep df =
     \<lparr>columns = keep, rows = map (\<lambda>r. r |` set keep) (rows df)\<rparr>"

text \<open>
  \<^verbatim>\<open>df[c] = s\<close> where the series \<open>s\<close> is computed row by row from \<open>df\<close> itself: an
  existing column is overwritten in place, a new one is appended.
\<close>

definition assign :: "string \<Rightarrow> ('n row \<Rightarrow> 'n cell) \<Rightarrow> 'n dataframe \<Rightarrow> 'n dataframe" where
  "assign c f df =
     \<lparr>columns = (if c \<in> set (columns df) then columns df else columns df @ [c]),
      rows = map (\<lambda>r. r(c \<mapsto> f r)) (rows df)\<rparr>"

text \<open>The loops \<^verbatim>\<open>for col in COLS: if col in df.columns: df[col] = f(df[col])\<close>.\<close>

definition convert_column :: "('n cell \<Rightarrow> 'n cell) \<Rightarrow> string \<Rightarrow> 'n dataframe \<Rightarrow> 'n dataframe" where
  "convert_column f c df =
     (if c \<in> set (columns df) then assign c (\<lambda>r. f (cell_of r c)) df else df)"

section \<open>Python strings\<close>

text \<open>
  A string is a list of characters, and a character is a code point below 256.
  \<open>whitespace\<close> lists the characters among them that \<^verbatim>\<open>str.strip()\<close> removes, those for
  which \<^verbatim>\<open>str.isspace\<close> holds: the ASCII ones, the next-line control \<open>0x85\<close> and the
  no-break space \<open>0xA0\<close>.
\<close>

definition whitespace :: "char list" where
  "whitespace =
     [CHR 0x09, CHR 0x0A, CHR 0x0B, CHR 0x0C, CHR 0x0D,
      CHR 0x1C, CHR 0x1D, CHR 0x1E, CHR 0x1F, CHR 0x20, CHR 0x85, CHR 0xA0]"

definition lstrip :: "char list \<Rightarrow> string \<Rightarrow> string" where
  "lstrip cs s = dropWhile (\<lambda>ch. ch \<in> set cs) s"

definition rstrip :: "char list \<Rightarrow> string \<Rightarrow> string" where
  "rstrip cs s = rev (dropWhile (\<lambda>ch. ch \<in> set cs) (rev s))"

definition strip :: "string \<Rightarrow> string" where
  "strip s = rstrip whitespace (lstrip whitespace s)"

definition endswith :: "string \<Rightarrow> string \<Rightarrow> bool" where
  "endswith s suf = (length suf \<le> length s \<and> drop (length s - length suf) s = suf)"

text \<open>
  \<^verbatim>\<open>str.upper()\<close> on the letters \<open>a\<close> to \<open>z\<close>. Python also maps letters above 127: each
  to a letter above 127, except \<open>0xDF\<close>, which becomes \<^verbatim>\<open>SS\<close>. None of the strings
  \<^verbatim>\<open>"TRUE"\<close>, \<^verbatim>\<open>"FALSE"\<close>, \<^verbatim>\<open>"1"\<close> and \<^verbatim>\<open>"0"\<close> holds a letter above 127 or two \<open>S\<close>
  in a row, so that whether the result is one of them is the same for both.
\<close>

definition upper_char :: "char \<Rightarrow> char" where
  "upper_char ch =
     (case map_of (zip ''abcdefghijklmnopqrstuvwxyz'' ''ABCDEFGHIJKLMNOPQRSTUVWXYZ'') ch of
        None \<Rightarrow> ch | Some u \<Rightarrow> u)"

definition upper :: "string \<Rightarrow> string" where
  "upper s = map upper_char s"

text \<open>\<^verbatim>\<open>str(i)\<close> of a Python integer.\<close>

fun str_nat :: "nat \<Rightarrow> string" where
  "str_nat n =
     (if n < 10 then [''0123456789'' ! n]
      else str_nat (n div 10) @ [''0123456789'' ! (n mod 10)])"

declare str_nat.simps [simp del]

definition str_int :: "int \<Rightarrow> string" where
  "str_int i = (if i < 0 then CHR ''-'' # str_nat (nat (- i)) else str_nat (nat i))"

section \<open>The library functions \<^verbatim>\<open>clean\<close> calls\<close>

text \<open>
  What pandas computes on numbers and how it sorts is not part of the repository; the
  model takes it as a parameter:
  \<^item> \<open>to_numeric\<close> is \<^verbatim>\<open>pd.to_numeric(_, errors="coerce")\<close>, which converts a column of
    strings as a whole: \<open>to_numeric L col s\<close> is what the result holds at an element \<open>s\<close> of
    the column \<open>col\<close>, \<open>None\<close> where that is NaN (the string does not parse, or parses to
    NaN). The column is an argument because it decides the dtype of the result: next to
    a string that does not parse the column is float64, and an integer in it is held as
    a float;
  \<^item> \<open>num_str\<close> is the string \<^verbatim>\<open>astype(str)\<close> gives for a numeric value;
  \<^item> \<open>minus_one\<close> is the number \<open>-1\<close>;
  \<^item> \<open>argsort\<close> is the indexer \<^verbatim>\<open>sort_values\<close> computes from the keys of a string
    column with its default \<^verbatim>\<open>kind="quicksort"\<close>: position \<open>k\<close> of the result names the
    row that comes \<open>k\<close>-th.
\<close>

record 'n pandas =
  to_numeric :: "string list \<Rightarrow> string \<Rightarrow> 'n option"
  num_str :: "'n \<Rightarrow> string"
  minus_one :: "'n"
  argsort :: "string list \<Rightarrow> nat list"

text \<open>\<^verbatim>\<open>astype(str)\<close> on one cell: Python's \<^verbatim>\<open>str\<close> of the value.\<close>

fun astype_str :: "'n pandas \<Rightarrow> 'n cell \<Rightarrow> string" where
  "astype_str L NaN = ''nan''"
| "astype_str L PdNA = ''<NA>''"
| "astype_str L (Str s) = s"
| "astype_str L (IntV i) = str_int i"
| "astype_str L (NumV v) = num_str L v"
| "astype_str L (BoolV b) = (if b then ''True'' else ''False'')"

text \<open>\<^verbatim>\<open>astype("string")\<close> on one cell: a missing value stays missing.\<close>

definition astype_string :: "'n pandas \<Rightarrow> 'n cell \<Rightarrow> 'n cell" where
  "astype_string L x = (if isna x then PdNA else Str (astype_str L x))"

text \<open>
  \<^verbatim>\<open>df[col].astype(str).str.strip().fillna("").str.endswith("^")\<close>: after
  \<^verbatim>\<open>astype(str)\<close> no value is missing, so \<^verbatim>\<open>fillna("")\<close> changes nothing.
\<close>

definition has_caret :: "'n pandas \<Rightarrow> 'n cell \<Rightarrow> bool" where
  "has_caret L x = endswith (strip (astype_str L x)) ''^''"

text \<open>
  \<^verbatim>\<open>df["label_is_anomaly"] | has_caret.astype(int)\<close> on one row. The label column was
  assigned the integer 0 just before the loop, so it holds integers; on any other cell
  the model leaves the label as it is.
\<close>

definition or_label :: "'n cell \<Rightarrow> bool \<Rightarrow> 'n cell" where
  "or_label lab b = (case lab of IntV a \<Rightarrow> IntV (a OR (if b then 1 else 0)) | _ \<Rightarrow> lab)"

definition mark_carets :: "'n pandas \<Rightarrow> string \<Rightarrow> 'n dataframe \<Rightarrow> 'n dataframe" where
  "mark_carets L c df =
     (if c \<in> set (columns df)
      then assign LABEL (\<lambda>r. or_label (cell_of r LABEL) (has_caret L (cell_of r c))) df
      else df)"

text \<open>
  The body of the loop over the Nutrient columns.
  \<^verbatim>\<open>numeric_val = df[col].astype(str).str.rstrip("^").str.strip()\<close> is the column of
  strings \<open>numeric_col\<close>, \<^verbatim>\<open>pd.to_numeric(numeric_val, errors="coerce")\<close> reads each of its
  elements as an element of that column, and \<^verbatim>\<open>fillna(-1)\<close> follows.
\<close>

definition numeric_val :: "'n pandas \<Rightarrow> 'n cell \<Rightarrow> string" where
  "numeric_val L x = strip (rstrip ''^'' (astype_str L x))"

definition numeric_col :: "'n pandas \<Rightarrow> string \<Rightarrow> 'n row list \<Rightarrow> string list" where
  "numeric_col L c rs = map (\<lambda>r. numeric_val L (cell_of r c)) rs"

definition to_numeric_cell :: "'n pandas \<Rightarrow> string list \<Rightarrow> string \<Rightarrow> 'n cell" where
  "to_numeric_cell L col s = (case to_numeric L col s of None \<Rightarrow> NaN | Some v \<Rightarrow> NumV v)"

definition nutrient_cell :: "'n pandas \<Rightarrow> string list \<Rightarrow> 'n cell \<Rightarrow> 'n cell" where
  "nutrient_cell L col x = fillna (NumV (minus_one L)) (to_numeric_cell L col (numeric_val L x))"

definition convert_nutrient :: "'n pandas \<Rightarrow> string \<Rightarrow> 'n dataframe \<Rightarrow> 'n dataframe" where
  "convert_nutrient L c df =
     convert_column (nutrient_cell L (numeric_col L c (rows df))) c df"

text \<open>
  \<^verbatim>\<open>.astype(str).str.upper().map({...}).fillna(False).astype(bool)\<close>: \<^verbatim>\<open>map\<close> gives a
  missing value for a key that is not in the dictionary (\<open>None\<close> here), \<^verbatim>\<open>fillna(False)\<close>
  replaces it, and \<^verbatim>\<open>astype(bool)\<close> then sees Python booleans only.
\<close>

definition bool_map :: "string \<rightharpoonup> bool" where
  "bool_map = [''TRUE'' \<mapsto> True, ''FALSE'' \<mapsto> False, ''1'' \<mapsto> True, ''0'' \<mapsto> False]"

definition bool_cell :: "'n pandas \<Rightarrow> 'n cell \<Rightarrow> 'n cell" where
  "bool_cell L x =
     BoolV (case bool_map (upper (astype_str L x)) of None \<Rightarrow> False | Some b \<Rightarrow> b)"

section \<open>Row filters, sorting and deduplication\<close>

datatype error = KeyError string | IndexError

text \<open>\<^verbatim>\<open>df.dropna(subset=[c])\<close>: a \<^verbatim>\<open>KeyError\<close> when the table has no column \<open>c\<close>.\<close>

definition dropna :: "string \<Rightarrow> 'n dataframe \<Rightarrow> error + 'n dataframe" where
  "dropna c df =
     (if c \<in> set (columns df)
      then Inr (df\<lparr>rows := filter (\<lambda>r. \<not> isna (cell_of r c)) (rows df)\<rparr>)
      else Inl (KeyError c))"

text \<open>
  \<^verbatim>\<open>df[df[c].notna() & (df[c].astype(str).str.strip() != "")]\<close>.
\<close>

definition nonempty_text :: "'n pandas \<Rightarrow> 'n cell \<Rightarrow> bool" where
  "nonempty_text L x = (\<not> isna x \<and> strip (astype_str L x) \<noteq> [])"

definition keep_nonempty :: "'n pandas \<Rightarrow> string \<Rightarrow> 'n dataframe \<Rightarrow> 'n dataframe" where
  "keep_nonempty L c df = df\<lparr>rows := filter (\<lambda>r. nonempty_text L (cell_of r c)) (rows df)\<rparr>"

text \<open>
  \<^verbatim>\<open>take\<close>: the rows at the positions of an indexer; pandas raises \<^verbatim>\<open>IndexError\<close> for a
  position outside the table.
\<close>

definition take_rows :: "nat list \<Rightarrow> 'a list \<Rightarrow> error + 'a list" where
  "take_rows idx xs =
     (if list_all (\<lambda>i. i < length xs) idx then Inr (map (\<lambda>i. xs ! i) idx) else Inl IndexError)"

text \<open>
  \<^verbatim>\<open>df.sort_values(c)\<close> on a column of dtype \<^verbatim>\<open>"string"\<close>, ascending, missing values
  last: pandas sorts the keys that are not missing with \<open>argsort\<close> and puts the rows with
  a missing key behind them, in their order. The key of a cell is its string.
\<close>

definition str_key :: "'n cell \<Rightarrow> string" where
  "str_key x = (case x of Str s \<Rightarrow> s | _ \<Rightarrow> [])"

definition sort_values :: "'n pandas \<Rightarrow> string \<Rightarrow> 'n dataframe \<Rightarrow> error + 'n dataframe" where
  "sort_values L c df =
     (if c \<in> set (columns df)
      then
        (let present = filter (\<lambda>r. \<not> isna (cell_of r c)) (rows df);
             missing = filter (\<lambda>r. isna (cell_of r c)) (rows df)
         in case take_rows (argsort L (map (\<lambda>r. str_key (cell_of r c)) present)) present of
              Inl e \<Rightarrow> Inl e
            | Inr sorted_rows \<Rightarrow> Inr (df\<lparr>rows := sorted_rows @ missing\<rparr>))
      else Inl (KeyError c))"

text \<open>
  \<^verbatim>\<open>df.drop_duplicates(subset=[c], keep="first")\<close>: a row is dropped when a row before
  it has the same value in column \<open>c\<close>.
\<close>

fun keep_first :: "('a \<Rightarrow> 'k) \<Rightarrow> 'k list \<Rightarrow> 'a list \<Rightarrow> 'a list" where
  "keep_first key seen [] = []"
| "keep_first key seen (x # xs) =
     (if key x \<in> set seen then keep_first key seen xs
      else x # keep_first key (key x # seen) xs)"

definition drop_duplicates :: "string \<Rightarrow> 'n dataframe \<Rightarrow> 'n dataframe" where
  "drop_duplicates c df = df\<lparr>rows := keep_first (\<lambda>r. cell_of r c) [] (rows df)\<rparr>"

section \<open>\<^verbatim>\<open>clean\<close>\<close>

definition cols_with_carets :: "string list" where
  "cols_with_carets = TEXT_COLS @ NUTRIENT_COLS @ TAG_COLS"

definition bool_cols :: "string list" where
  "bool_cols = TAG_COLS @ FLAG_COLS"

text \<open>
  The lines \<^verbatim>\<open>print\<close> writes when \<^verbatim>\<open>verbose\<close> is set, each as its text and the number
  that follows it.
\<close>

type_synonym report = "(string \<times> int) list"

definition summary :: "int \<Rightarrow> int \<Rightarrow> int \<Rightarrow> int \<Rightarrow> int \<Rightarrow> int \<Rightarrow> report" where
  "summary initial_count removed_no_gtin removed_empty_ingredients removed_duplicates
           final_count total_removed =
     [(''  Initial rows: '', initial_count),
      (''  Removed (no GTIN): '', removed_no_gtin),
      (''  Removed (empty ingredients_text): '', removed_empty_ingredients),
      (''  Removed (duplicate GTINs): '', removed_duplicates),
      (''  Final rows: '', final_count),
      (''  Total removed: '', total_removed)]"

text \<open>The stages of \<^verbatim>\<open>clean\<close> before the first row is removed (lines 50 to 90).\<close>

definition coerce :: "'n pandas \<Rightarrow> 'n dataframe \<Rightarrow> 'n dataframe" where
  "coerce L df =
     (let keep = filter (\<lambda>c. c \<in> set (columns df)) COLS_TO_KEEP;
          df = select_columns keep df;
          df = fold (convert_column (astype_string L)) (ID_COL @ TEXT_COLS) df;
          df = assign LABEL (\<lambda>r. IntV 0) df;
          df = fold (mark_carets L) cols_with_carets df;
          df = fold (convert_nutrient L) NUTRIENT_COLS df;
          df = fold (convert_column (bool_cell L)) bool_cols df
      in df)"

text \<open>
  \<^verbatim>\<open>clean(df, verbose)\<close>: the table it returns and the lines it prints, or the
  exception it raises.
\<close>

definition clean :: "'n pandas \<Rightarrow> 'n dataframe \<Rightarrow> bool \<Rightarrow> error + ('n dataframe \<times> report)" where
  "clean L df verbose =
     (let initial_count = len df;
          df = coerce L df;
          before_gtin = len df
      in case dropna ''gtin'' df of
           Inl e \<Rightarrow> Inl e
         | Inr df \<Rightarrow>
            (let removed_no_gtin = before_gtin - len df;
                 before_ingredients = len df;
                 has_ingredients = (''ingredients_text'' \<in> set (columns df));
                 df = (if has_ingredients then keep_nonempty L ''ingredients_text'' df else df);
                 removed_empty_ingredients =
                   (if has_ingredients then before_ingredients - len df else 0);
                 before_duplicates = len df
             in case sort_values L ''gtin'' df of
                  Inl e \<Rightarrow> Inl e
                | Inr df \<Rightarrow>
                   (let df = drop_duplicates ''gtin'' df;
                        removed_duplicates = before_duplicates - len df;
                        final_count = len df;
                        total_removed = initial_count - final_count
                    in Inr (df,
                            if verbose
                            then summary initial_count removed_no_gtin removed_empty_ingredients
                                   removed_duplicates final_count total_removed
                            else []))))"

section \<open>What \<^verbatim>\<open>clean\<close> does to one row\<close>

text \<open>
  The columns of the result: the schema's columns that the input has, in schema order,
  with the label column last.
\<close>

definition out_columns :: "string list \<Rightarrow> string list" where
  "out_columns cols =
     (let keep = filter (\<lambda>c. c \<in> set cols) COLS_TO_KEEP
      in if LABEL \<in> set keep then keep else keep @ [LABEL])"

text \<open>The loop bodies of lines 56 to 90 on one row of a table with columns \<open>cols\<close>.\<close>

definition convert_cell :: "string list \<Rightarrow> ('n cell \<Rightarrow> 'n cell) \<Rightarrow> string \<Rightarrow> 'n row \<Rightarrow> 'n row" where
  "convert_cell cols f c = (\<lambda>r. if c \<in> set cols then r(c \<mapsto> f (cell_of r c)) else r)"

definition mark_cell :: "'n pandas \<Rightarrow> string list \<Rightarrow> string \<Rightarrow> 'n row \<Rightarrow> 'n row" where
  "mark_cell L cols c =
     (\<lambda>r. if c \<in> set cols
          then r(LABEL \<mapsto> or_label (cell_of r LABEL) (has_caret L (cell_of r c))) else r)"

definition label_row :: "'n pandas \<Rightarrow> string list \<Rightarrow> 'n row \<Rightarrow> 'n row" where
  "label_row L cols r =
     (let keep = filter (\<lambda>c. c \<in> set cols) COLS_TO_KEEP;
          cols' = (if LABEL \<in> set keep then keep else keep @ [LABEL]);
          r = r |` set keep;
          r = fold (convert_cell keep (astype_string L)) (ID_COL @ TEXT_COLS) r;
          r = r(LABEL \<mapsto> IntV 0);
          r = fold (mark_cell L cols') cols_with_carets r
      in r)"

text \<open>
  The loop over the Nutrient columns reads a column of the table as it is when the loop
  gets to it: \<open>rs\<close> are the rows the table came with, which the loop over the caret
  columns has left as \<open>map (label_row L cols) rs\<close>.
\<close>

definition coerce_row :: "'n pandas \<Rightarrow> 'n row list \<Rightarrow> string list \<Rightarrow> 'n row \<Rightarrow> 'n row" where
  "coerce_row L rs cols r =
     (let cols' = out_columns cols;
          r = label_row L cols r;
          r = fold (\<lambda>c. convert_cell cols'
                         (nutrient_cell L (numeric_col L c (map (label_row L cols) rs))) c)
                NUTRIENT_COLS r;
          r = fold (convert_cell cols' (bool_cell L)) bool_cols r
      in r)"

text \<open>
  The same row cell by cell, from the raw row \<open>r\<close> of a table with columns \<open>cols\<close> and
  rows \<open>rs\<close> (\<open>coerce_row_eq\<close> and \<open>rows_coerce\<close> below prove that the loops compute it).
  The rows matter to the Nutrient cells only, which are read as elements of their
  columns.
\<close>

definition any_caret :: "'n pandas \<Rightarrow> string list \<Rightarrow> 'n row \<Rightarrow> bool" where
  "any_caret L cols r =
     (\<exists>k \<in> set cols_with_carets. k \<in> set cols \<and> has_caret L (cell_of r k))"

definition clean_row :: "'n pandas \<Rightarrow> 'n row list \<Rightarrow> string list \<Rightarrow> 'n row \<Rightarrow> 'n row" where
  "clean_row L rs cols r =
     (\<lambda>c. if c = LABEL then Some (IntV (if any_caret L cols r then 1 else 0))
          else if c \<notin> set cols then None
          else if c \<in> set (ID_COL @ TEXT_COLS) then Some (astype_string L (cell_of r c))
          else if c \<in> set NUTRIENT_COLS
          then Some (nutrient_cell L (numeric_col L c rs) (cell_of r c))
          else if c \<in> set bool_cols then Some (bool_cell L (cell_of r c))
          else None)"

text \<open>
  The cleaned rows that pass the identifier filter and the text filter, in input order.
\<close>

definition passed :: "'n pandas \<Rightarrow> 'n dataframe \<Rightarrow> 'n row list" where
  "passed L df =
     filter (\<lambda>r. ''ingredients_text'' \<in> set (columns df) \<longrightarrow>
                  nonempty_text L (cell_of r ''ingredients_text''))
       (filter (\<lambda>r. \<not> isna (cell_of r ''gtin''))
          (map (clean_row L (rows df) (columns df)) (rows df)))"

definition gtin_key :: "'n row \<Rightarrow> string" where
  "gtin_key r = str_key (cell_of r ''gtin'')"

section \<open>What is assumed of the library\<close>

text \<open>
  \<open>in_range\<close>: the indexer \<^verbatim>\<open>sort_values\<close> computes holds positions of the table only,
  so that taking the rows at these positions raises nothing.
\<close>

definition in_range :: "'n pandas \<Rightarrow> bool" where
  "in_range L = (\<forall>ks. \<forall>i \<in> set (argsort L ks). i < length ks)"

text \<open>
  \<open>sorts\<close>: the indexer is a permutation of the positions that puts the keys in ascending
  order, which is what pandas documents for \<^verbatim>\<open>sort_values\<close> with any \<^verbatim>\<open>kind\<close>.
\<close>

definition sorts :: "'n pandas \<Rightarrow> bool" where
  "sorts L =
     (\<forall>ks. distinct (argsort L ks) \<and> set (argsort L ks) = {0 ..< length ks} \<and>
           sorted (map (\<lambda>i. ks ! i) (argsort L ks)))"

text \<open>
  \<open>reads_back\<close>: \<^verbatim>\<open>pd.to_numeric\<close> reads every number in a Nutrient column of the table
  back from the string \<^verbatim>\<open>astype(str)\<close> gives it, as an element of that column.
\<close>

definition reads_back :: "'n pandas \<Rightarrow> 'n dataframe \<Rightarrow> bool" where
  "reads_back L df =
     (\<forall>r \<in> set (rows df). \<forall>c \<in> set NUTRIENT_COLS. \<forall>v.
        cell_of r c = NumV v \<longrightarrow>
          to_numeric L (numeric_col L c (rows df)) (strip (rstrip ''^'' (num_str L v))) = Some v)"

section \<open>A library instance on integer data\<close>

text \<open>
  Closed examples need the library's functions at concrete strings. \<open>py\<close> is pandas on
  columns of decimal integer literals of at most 15 digits, with an optional sign, and of
  strings that no number parser reads, which is what the examples use. A number is the
  integer it stands for, whether an int64 or a float64 column holds it, so \<open>to_numeric\<close>
  reads the literal whatever the rest of the column is. \<open>num_str\<close> is Python's \<^verbatim>\<open>str\<close> of
  an integer, as \<^verbatim>\<open>astype(str)\<close> gives it for a column of dtype int64, and \<open>argsort\<close> is a
  stable sort of the keys in the order of Python's string comparison.
\<close>

definition digit_val :: "char \<Rightarrow> nat option" where
  "digit_val ch = map_of (zip ''0123456789'' [0, 1, 2, 3, 4, 5, 6, 7, 8, 9]) ch"

fun parse_nat :: "nat \<Rightarrow> string \<Rightarrow> nat option" where
  "parse_nat acc [] = Some acc"
| "parse_nat acc (ch # s) =
     (case digit_val ch of None \<Rightarrow> None | Some d \<Rightarrow> parse_nat (10 * acc + d) s)"

definition parse_int :: "string \<Rightarrow> int option" where
  "parse_int s =
     (case s of
        [] \<Rightarrow> None
      | ch # t \<Rightarrow>
          if ch = CHR ''-'' then (if t = [] then None else map_option (\<lambda>n. - int n) (parse_nat 0 t))
          else if ch = CHR ''+'' then (if t = [] then None else map_option int (parse_nat 0 t))
          else map_option int (parse_nat 0 s))"

definition stable_argsort :: "string list \<Rightarrow> nat list" where
  "stable_argsort ks = sort_key (\<lambda>i. ks ! i) [0 ..< length ks]"

definition py :: "int pandas" where
  "py = \<lparr>to_numeric = (\<lambda>col. parse_int), num_str = str_int, minus_one = - 1,
          argsort = stable_argsort\<rparr>"

text \<open>The rows of a table as lists of cells in column order, for reading examples.\<close>

definition to_lists :: "'n dataframe \<Rightarrow> 'n cell list list" where
  "to_lists df = map (\<lambda>r. map (cell_of r) (columns df)) (rows df)"

section \<open>The sort pandas runs by default\<close>

text \<open>
  \<^verbatim>\<open>clean\<close> calls \<^verbatim>\<open>df.sort_values("gtin")\<close> and so leaves \<^verbatim>\<open>kind\<close> at its default,
  \<^verbatim>\<open>"quicksort"\<close>. For a column of dtype \<^verbatim>\<open>"string"\<close> held as Python objects (the
  default storage of pandas 1 and 2) the indexer is then numpy's generic
  \<^verbatim>\<open>npy_aquicksort\<close> (\<^verbatim>\<open>npysort/quicksort.cpp\<close>) on the keys: an introsort that
  partitions around the median of three while a range has more than 16 elements, sorts
  a range of at most 16 by insertion, and falls back to \<^verbatim>\<open>npy_aheapsort\<close> when a range
  popped from its stack has used up the depth limit. \<open>v\<close> is the array of keys,
  \<open>t\<close> the array \<^verbatim>\<open>tosort\<close> of positions that is permuted, \<open>pl\<close> and \<open>pr\<close> the ends of the
  range; \<^verbatim>\<open>cmp(a, b) < 0\<close> is \<open><\<close> on Python strings.
\<close>

text \<open>\<^verbatim>\<open>INTP_SWAP\<close> on two entries of \<open>t\<close>.\<close>

definition swap :: "nat \<Rightarrow> nat \<Rightarrow> nat list \<Rightarrow> nat list" where
  "swap i j t = t[i := t ! j, j := t ! i]"

text \<open>
  The scans \<^verbatim>\<open>do { ++pi; } while (cmp(v[*pi], vp) < 0)\<close> and
  \<^verbatim>\<open>do { --pj; } while (cmp(vp, v[*pj]) < 0)\<close>, from the position they test first. The
  median of three leaves a key at each end of the range that stops them; a scan that met
  none would stop here at the end of the array.
\<close>

definition scan_up :: "string list \<Rightarrow> string \<Rightarrow> nat list \<Rightarrow> nat \<Rightarrow> nat" where
  "scan_up v vp t i = i + length (takeWhile (\<lambda>x. v ! x < vp) (drop i t))"

definition scan_down :: "string list \<Rightarrow> string \<Rightarrow> nat list \<Rightarrow> nat \<Rightarrow> nat" where
  "scan_down v vp t j = j - length (takeWhile (\<lambda>x. vp < v ! x) (rev (take (Suc j) t)))"

text \<open>The loop \<^verbatim>\<open>for (;;)\<close> of the partition, which returns the array and the final \<open>pi\<close>.\<close>

function partition_loop :: "string list \<Rightarrow> string \<Rightarrow> nat list \<Rightarrow> nat \<Rightarrow> nat \<Rightarrow> nat list \<times> nat" where
  "partition_loop v vp t pi pj =
     (let pi' = scan_up v vp t (pi + 1);
          pj' = scan_down v vp t (pj - 1)
      in if pi' \<ge> pj' then (t, pi') else partition_loop v vp (swap pi' pj' t) pi' pj')"
  by pat_completeness auto
termination
  by (relation "measure (\<lambda>(v, vp, t, pi, pj). pj - pi)")
    (auto simp: scan_up_def scan_down_def)

text \<open>The median of three of \<open>pl\<close>, \<open>pm\<close> and \<open>pr\<close>, and the partition of the range around it.\<close>

definition partition :: "string list \<Rightarrow> nat list \<Rightarrow> nat \<Rightarrow> nat \<Rightarrow> nat list \<times> nat" where
  "partition v t pl pr =
     (let pm = pl + (pr - pl) div 2;
          t = (if v ! (t ! pm) < v ! (t ! pl) then swap pm pl t else t);
          t = (if v ! (t ! pr) < v ! (t ! pm) then swap pr pm t else t);
          t = (if v ! (t ! pm) < v ! (t ! pl) then swap pm pl t else t);
          vp = v ! (t ! pm);
          t = swap pm (pr - 1) t;
          (t, pi) = partition_loop v vp t pl (pr - 1);
          t = swap pi (pr - 1) t
      in (t, pi))"

text \<open>The insertion sort of a range of at most 16 entries.\<close>

function shift :: "string list \<Rightarrow> string \<Rightarrow> nat list \<Rightarrow> nat \<Rightarrow> nat \<Rightarrow> nat list \<times> nat" where
  "shift v vp t pl pj =
     (if pj > pl \<and> vp < v ! (t ! (pj - 1)) then shift v vp (t[pj := t ! (pj - 1)]) pl (pj - 1)
      else (t, pj))"
  by pat_completeness auto
termination
  by (relation "measure (\<lambda>(v, vp, t, pl, pj). pj)") auto

definition insertion_sort :: "string list \<Rightarrow> nat list \<Rightarrow> nat \<Rightarrow> nat \<Rightarrow> nat list" where
  "insertion_sort v t pl pr =
     fold (\<lambda>pi t. let vi = t ! pi; (t, pj) = shift v (v ! vi) t pl pi in t[pj := vi])
       [pl + 1 ..< pr + 1] t"

text \<open>
  \<^verbatim>\<open>npy_aheapsort\<close> on the \<open>n\<close> entries from \<open>base\<close>. The C code numbers the heap
  from 1 (\<^verbatim>\<open>a = tosort - 1\<close>); entry \<open>i\<close> of the heap is \<open>t ! (base + i - 1)\<close> here.
  \<open>sift\<close> is the inner loop \<^verbatim>\<open>for (i = l, j = l << 1; j <= n;)\<close> of both phases, and \<open>tmp\<close>
  the position held back while it runs.
\<close>

function sift :: "string list \<Rightarrow> nat list \<Rightarrow> nat \<Rightarrow> nat \<Rightarrow> nat \<Rightarrow> nat \<Rightarrow> nat \<Rightarrow> nat list \<times> nat" where
  "sift v t base tmp n i j =
     (if 0 < j \<and> j \<le> n then
        (let j = (if j < n \<and> v ! (t ! (base + j - 1)) < v ! (t ! (base + j)) then j + 1 else j)
         in if v ! tmp < v ! (t ! (base + j - 1))
            then sift v (t[base + i - 1 := t ! (base + j - 1)]) base tmp n j (j + j)
            else (t, i))
      else (t, i))"
  by pat_completeness auto
termination
  by (relation "measure (\<lambda>(v, t, base, tmp, n, i, j). Suc n - j)") auto

definition heapify :: "string list \<Rightarrow> nat \<Rightarrow> nat \<Rightarrow> nat \<Rightarrow> nat list \<Rightarrow> nat list" where
  "heapify v base n l t =
     (let tmp = t ! (base + l - 1); (t, i) = sift v t base tmp n l (l + l) in t[base + i - 1 := tmp])"

definition pop_max :: "string list \<Rightarrow> nat \<Rightarrow> nat \<Rightarrow> nat list \<Rightarrow> nat list" where
  "pop_max v base n t =
     (let tmp = t ! (base + n - 1);
          t = t[base + n - 1 := t ! base];
          (t, i) = sift v t base tmp (n - 1) 1 2
      in t[base + i - 1 := tmp])"

definition aheapsort :: "string list \<Rightarrow> nat list \<Rightarrow> nat \<Rightarrow> nat \<Rightarrow> nat list" where
  "aheapsort v t base n =
     (let t = fold (heapify v base n) (rev [1 ..< n div 2 + 1]) t
      in fold (pop_max v base) (rev [2 ..< n + 1]) t)"

text \<open>
  The main loop. Its explicit stack is the recursion here: of the two parts of a
  partition the shorter is sorted at once, with the depth limit lowered by one and not
  tested, and the longer when it is popped from the stack, where the limit is tested
  (\<open>popped\<close>). A range of 17 keys is still partitioned, one of 16 is sorted by insertion.
  The first argument is fuel for the recursion, which \<open>npy_argsort\<close> sets
  to one more than the number of keys; \<open>None\<close> is a run that used it up, for which
  \<open>npy_argsort\<close> leaves the positions as they were.
\<close>

fun aquicksort :: "nat \<Rightarrow> string list \<Rightarrow> nat list \<Rightarrow> nat \<Rightarrow> nat \<Rightarrow> int \<Rightarrow> bool \<Rightarrow> nat list option" where
  "aquicksort 0 v t pl pr cdepth popped = None"
| "aquicksort (Suc fuel) v t pl pr cdepth popped =
     (if popped \<and> cdepth < 0 then Some (aheapsort v t pl (pr + 1 - pl))
      else if pr + 1 - pl > 16 then
        (let (t, pi) = partition v t pl pr
         in if pi - pl < pr - pi
            then (case aquicksort fuel v t pl (pi - 1) (cdepth - 1) False of
                    None \<Rightarrow> None
                  | Some t \<Rightarrow> aquicksort fuel v t (pi + 1) pr (cdepth - 1) True)
            else (case aquicksort fuel v t (pi + 1) pr (cdepth - 1) False of
                    None \<Rightarrow> None
                  | Some t \<Rightarrow> aquicksort fuel v t pl (pi - 1) (cdepth - 1) True))
      else Some (insertion_sort v t pl pr))"

text \<open>\<^verbatim>\<open>npy_get_msb\<close>: the position of the highest bit set.\<close>

fun get_msb :: "nat \<Rightarrow> nat" where
  "get_msb n = (if n < 2 then 0 else 1 + get_msb (n div 2))"

declare get_msb.simps [simp del]

definition npy_argsort :: "string list \<Rightarrow> nat list" where
  "npy_argsort v =
     (let num = length v
      in case aquicksort (Suc num) v [0 ..< num] 0 (num - 1) (2 * int (get_msb num)) True of
           None \<Rightarrow> [0 ..< num]
         | Some t \<Rightarrow> t)"

text \<open>pandas with this sort, and the integer instance for everything else.\<close>

definition np :: "int pandas" where
  "np = py\<lparr>argsort := npy_argsort\<rparr>"

section \<open>Example tables\<close>

text \<open>
  A table with the columns \<open>gtin\<close>, \<open>ingredients_text\<close>, \<open>calories\<close> and \<open>is_seed_oil\<close>:
  five rows, of which one has no identifier, one has blank ingredients and two share the
  identifier \<open>7\<close>; and the table \<^verbatim>\<open>clean\<close> returns for it.
\<close>

definition demo_cols :: "string list" where
  "demo_cols = [''gtin'', ''ingredients_text'', ''calories'', ''is_seed_oil'']"

definition demo_row :: "'n cell \<Rightarrow> 'n cell \<Rightarrow> 'n cell \<Rightarrow> 'n cell \<Rightarrow> 'n row" where
  "demo_row g i c s =
     [''gtin'' \<mapsto> g, ''ingredients_text'' \<mapsto> i, ''calories'' \<mapsto> c, ''is_seed_oil'' \<mapsto> s]"

definition demo :: "int dataframe" where
  "demo = \<lparr>columns = demo_cols,
     rows = [demo_row (Str ''7'') (Str ''oil'') (Str ''-5'') (Str ''true''),
             demo_row NaN (Str ''x'') (Str ''1'') (Str ''0''),
             demo_row (Str ''7'') (Str ''oil^'') (Str ''abc'') (Str ''1''),
             demo_row (Str ''123'') (Str ''milk^'') (Str ''50^'') (Str ''YES''),
             demo_row (Str ''9'') (Str ''   '') (Str ''3'') (Str ''1'')]\<rparr>"

definition demo_out :: "int dataframe" where
  "demo_out = \<lparr>columns = [''gtin'', ''ingredients_text'', ''calories'', ''is_seed_oil'', ''label_is_anomaly''],
     rows = [clean_row py (rows demo) demo_cols (demo_row (Str ''123'') (Str ''milk^'') (Str ''50^'') (Str ''YES'')),
             clean_row py (rows demo) demo_cols (demo_row (Str ''7'') (Str ''oil'') (Str ''-5'') (Str ''true''))]\<rparr>"

text \<open>A table with one row, whose identifier is the empty string.\<close>

definition blank_gtin :: "int dataframe" where
  "blank_gtin = \<lparr>columns = demo_cols,
     rows = [demo_row (Str []) (Str ''x'') (Str ''1'') (Str ''0'')]\<rparr>"

text \<open>A table with one row and no identifier column, and a table with no columns and no rows.\<close>

definition no_gtin :: "int dataframe" where
  "no_gtin = \<lparr>columns = [''calories''], rows = [[''calories'' \<mapsto> Str ''1'']]\<rparr>"

definition empty_table :: "int dataframe" where
  "empty_table = \<lparr>columns = [], rows = []\<rparr>"

text \<open>The example table with a \<open>label_is_anomaly\<close> column of its own, holding a string.\<close>

definition demo_labelled :: "int dataframe" where
  "demo_labelled = \<lparr>columns = demo_cols @ [LABEL],
     rows = map (\<lambda>r. r(LABEL \<mapsto> Str ''garbage'')) (rows demo)\<rparr>"

text \<open>The scenario of the specification: one row with a caret in two of its cells.\<close>

definition scenario_cols :: "string list" where
  "scenario_cols = [''gtin'', ''ingredients_text'', ''calories'']"

definition scenario_row :: "'n row" where
  "scenario_row =
     [''gtin'' \<mapsto> Str ''123'', ''ingredients_text'' \<mapsto> Str ''milk^'', ''calories'' \<mapsto> Str ''50^'']"

definition scenario :: "'n dataframe" where
  "scenario = \<lparr>columns = scenario_cols, rows = [scenario_row]\<rparr>"

text \<open>A table with one row whose only caret is in a Nutrient cell, and its cleaned form.\<close>

definition once :: "int dataframe" where
  "once = \<lparr>columns = demo_cols,
     rows = [demo_row (Str ''1'') (Str ''milk'') (Str ''50^'') (Str ''0'')]\<rparr>"

definition once_out :: "int dataframe" where
  "once_out = \<lparr>columns = [''gtin'', ''ingredients_text'', ''calories'', ''is_seed_oil'', ''label_is_anomaly''],
     rows = [clean_row py (rows once) demo_cols (demo_row (Str ''1'') (Str ''milk'') (Str ''50^'') (Str ''0''))]\<rparr>"

text \<open>
  A table of 18 rows: the first has the identifier \<open>1\<close>, the other 17 share the
  identifier \<open>5\<close>; the \<open>calories\<close> cell of a row is its position in the table.
\<close>

definition crowd_row :: "nat \<Rightarrow> int row" where
  "crowd_row i =
     demo_row (Str (if i = 0 then ''1'' else ''5'')) (Str ''x'') (IntV (int i)) (Str ''0'')"

definition crowd :: "int dataframe" where
  "crowd = \<lparr>columns = demo_cols, rows = map crowd_row [0 ..< 18]\<rparr>"

section \<open>The coercion stages, row by row\<close>

lemma distinct_schema: "distinct (ID_COL @ TEXT_COLS @ NUTRIENT_COLS @ TAG_COLS @ FLAG_COLS @ [LABEL])"
  by (simp add: ID_COL_def TEXT_COLS_def NUTRIENT_COLS_def TAG_COLS_def FLAG_COLS_def LABEL_def)

lemma columns_convert_column: "columns (convert_column f c df) = columns df"
  by (simp add: convert_column_def assign_def)

lemma rows_convert_column:
  "rows (convert_column f c df) = map (convert_cell (columns df) f c) (rows df)"
  by (cases "c \<in> set (columns df)") (simp_all add: convert_column_def assign_def convert_cell_def)

lemma fold_convert_column:
  "fold (convert_column f) cs df =
     \<lparr>columns = columns df, rows = map (fold (convert_cell (columns df) f) cs) (rows df)\<rparr>"
proof (induction cs arbitrary: df)
  case Nil
  show ?case by simp
next
  case (Cons c cs)
  have "fold (convert_column f) (c # cs) df = fold (convert_column f) cs (convert_column f c df)"
    by simp
  also have "\<dots> = \<lparr>columns = columns df,
       rows = map (fold (convert_cell (columns df) f) cs) (map (convert_cell (columns df) f c) (rows df))\<rparr>"
    by (simp only: Cons.IH columns_convert_column rows_convert_column)
  finally show ?case by simp
qed

lemma fold_mark_carets:
  "LABEL \<in> set (columns df) \<Longrightarrow>
   fold (mark_carets L) cs df =
     \<lparr>columns = columns df, rows = map (fold (mark_cell L (columns df)) cs) (rows df)\<rparr>"
proof (induction cs arbitrary: df)
  case Nil
  show ?case by simp
next
  case (Cons c cs)
  then show ?case
    by (simp add: mark_carets_def assign_def mark_cell_def)
qed

lemma fold_convert_cell:
  "distinct cs \<Longrightarrow>
   fold (convert_cell cols f) cs r c =
     (if c \<in> set cs \<and> c \<in> set cols then Some (f (cell_of r c)) else r c)"
proof (induction cs arbitrary: r)
  case Nil
  show ?case by simp
next
  case (Cons x xs)
  then show ?case
    by (auto simp: convert_cell_def cell_of_def)
qed

lemma fold_convert_cell_each:
  "distinct cs \<Longrightarrow>
   fold (\<lambda>c. convert_cell cols (F c) c) cs r c =
     (if c \<in> set cs \<and> c \<in> set cols then Some (F c (cell_of r c)) else r c)"
proof (induction cs arbitrary: r)
  case Nil
  show ?case by simp
next
  case (Cons x xs)
  then show ?case
    by (auto simp: convert_cell_def cell_of_def)
qed

lemma numeric_col_convert_cell:
  "k \<noteq> c \<Longrightarrow> numeric_col L k (map (convert_cell cols f c) rs) = numeric_col L k rs"
  by (simp add: numeric_col_def convert_cell_def cell_of_def)

text \<open>
  The loop over the Nutrient columns row by row: the conversion of one column leaves the
  others as they were, so each is read as the table had it before the loop.
\<close>

lemma fold_convert_nutrient:
  "distinct cs \<Longrightarrow>
   fold (convert_nutrient L) cs df =
     \<lparr>columns = columns df,
      rows = map (fold (\<lambda>c. convert_cell (columns df)
                                (nutrient_cell L (numeric_col L c (rows df))) c) cs)
               (rows df)\<rparr>"
proof (induction cs arbitrary: df)
  case Nil
  show ?case by simp
next
  case (Cons c cs)
  let ?F = "\<lambda>rs k. convert_cell (columns df) (nutrient_cell L (numeric_col L k rs)) k"
  let ?df = "convert_nutrient L c df"
  have cols: "columns ?df = columns df"
    by (simp add: convert_nutrient_def columns_convert_column)
  have rws: "rows ?df = map (?F (rows df) c) (rows df)"
    by (simp add: convert_nutrient_def rows_convert_column)
  have same: "fold (?F (rows ?df)) cs = fold (?F (rows df)) cs"
  proof (rule fold_cong [OF refl refl, THEN ext])
    fix k
    assume "k \<in> set cs"
    then have "k \<noteq> c"
      using Cons.prems by auto
    then show "?F (rows ?df) k = ?F (rows df) k"
      by (simp add: rws numeric_col_convert_cell)
  qed
  have "fold (convert_nutrient L) (c # cs) df = fold (convert_nutrient L) cs ?df"
    by simp
  also have "\<dots> = \<lparr>columns = columns df, rows = map (fold (?F (rows ?df)) cs) (rows ?df)\<rparr>"
    using Cons.prems by (simp only: Cons.IH cols distinct.simps)
  also have "\<dots> = \<lparr>columns = columns df,
      rows = map (fold (?F (rows df)) (c # cs)) (rows df)\<rparr>"
    by (simp only: same) (simp add: rws)
  finally show ?case .
qed

lemma or_label_bit:
  "or_label (IntV (if a then 1 else 0)) b = IntV (if a \<or> b then 1 else 0)"
  by (simp add: or_label_def)

lemma fold_mark_cell:
  "LABEL \<notin> set ks \<Longrightarrow> r LABEL = Some (IntV (if a then 1 else 0)) \<Longrightarrow>
   fold (mark_cell L cols) ks r =
     r(LABEL \<mapsto> IntV (if a \<or> (\<exists>k \<in> set ks. k \<in> set cols \<and> has_caret L (cell_of r k)) then 1 else 0))"
proof (induction ks arbitrary: r a)
  case Nil
  then show ?case by (auto simp: fun_eq_iff)
next
  case (Cons k ks)
  show ?case
  proof (cases "k \<in> set cols")
    case False
    with Cons show ?thesis by (simp add: mark_cell_def)
  next
    case True
    let ?r = "r(LABEL \<mapsto> IntV (if a \<or> has_caret L (cell_of r k) then 1 else 0))"
    have step: "mark_cell L cols k r = ?r"
      using True Cons.prems by (simp add: mark_cell_def cell_of_def or_label_bit)
    have other: "cell_of ?r j = cell_of r j" if "j \<in> set ks" for j
      using that Cons.prems by (auto simp: cell_of_def)
    have "fold (mark_cell L cols) ks ?r =
          ?r(LABEL \<mapsto> IntV (if (a \<or> has_caret L (cell_of r k)) \<or>
               (\<exists>j \<in> set ks. j \<in> set cols \<and> has_caret L (cell_of ?r j)) then 1 else 0))"
      using Cons.prems by (intro Cons.IH) auto
    then show ?thesis
      using True other by (auto simp: step fun_eq_iff)
  qed
qed

lemma has_caret_astype_string: "has_caret L (astype_string L x) = has_caret L x"
  by (cases x) (simp_all add: has_caret_def astype_string_def strip_def lstrip_def rstrip_def
      whitespace_def endswith_def)

lemma set_keep: "set (filter (\<lambda>c. c \<in> set cols) COLS_TO_KEEP) = set COLS_TO_KEEP \<inter> set cols"
  by auto

lemma columns_coerce: "columns (coerce L df) = out_columns (columns df)"
  using distinct_schema
  by (simp add: coerce_def Let_def fold_convert_column fold_mark_carets fold_convert_nutrient
      select_columns_def assign_def out_columns_def)

lemma schema_disjoint:
  "set (ID_COL @ TEXT_COLS) \<inter> set NUTRIENT_COLS = {}"
  "set (ID_COL @ TEXT_COLS) \<inter> set bool_cols = {}"
  "set NUTRIENT_COLS \<inter> set bool_cols = {}"
  "set ID_COL \<inter> set TEXT_COLS = {}"
  "LABEL \<notin> set (ID_COL @ TEXT_COLS)"
  "LABEL \<notin> set NUTRIENT_COLS"
  "LABEL \<notin> set bool_cols"
  "LABEL \<notin> set cols_with_carets"
  "set ID_COL \<inter> set cols_with_carets = {}"
  using distinct_schema by (auto simp: bool_cols_def cols_with_carets_def)

lemma schema_distinct:
  "distinct (ID_COL @ TEXT_COLS)" "distinct NUTRIENT_COLS" "distinct bool_cols"
  "distinct cols_with_carets"
  using distinct_schema by (auto simp: bool_cols_def cols_with_carets_def)

lemma schema_subset:
  "set (ID_COL @ TEXT_COLS) \<subseteq> set COLS_TO_KEEP"
  "set NUTRIENT_COLS \<subseteq> set COLS_TO_KEEP"
  "set bool_cols \<subseteq> set COLS_TO_KEEP"
  "set cols_with_carets \<subseteq> set COLS_TO_KEEP"
  "set cols_with_carets = set TEXT_COLS \<union> set NUTRIENT_COLS \<union> set TAG_COLS"
  "set COLS_TO_KEEP = set (ID_COL @ TEXT_COLS) \<union> set NUTRIENT_COLS \<union> set bool_cols \<union> {LABEL}"
  by (auto simp: COLS_TO_KEEP_def bool_cols_def cols_with_carets_def)

text \<open>The table when the loop over the Nutrient columns gets to it.\<close>

lemma rows_coerce_fold:
  "rows (coerce L df) = map (coerce_row L (rows df) (columns df)) (rows df)"
proof -
  define keep where "keep = filter (\<lambda>c. c \<in> set (columns df)) COLS_TO_KEEP"
  define d4 where "d4 = fold (mark_carets L) cols_with_carets
      (assign LABEL (\<lambda>r. IntV 0)
         (fold (convert_column (astype_string L)) (ID_COL @ TEXT_COLS) (select_columns keep df)))"
  have d4: "d4 = \<lparr>columns = out_columns (columns df),
                    rows = map (label_row L (columns df)) (rows df)\<rparr>"
    by (simp add: d4_def keep_def fold_convert_column fold_mark_carets select_columns_def
        assign_def label_row_def out_columns_def Let_def)
  have "coerce L df =
          fold (convert_column (bool_cell L)) bool_cols (fold (convert_nutrient L) NUTRIENT_COLS d4)"
    by (simp add: coerce_def Let_def d4_def keep_def)
  then show ?thesis
    by (simp add: d4 fold_convert_column fold_convert_nutrient [OF schema_distinct(2)]
        coerce_row_def Let_def)
qed

lemma in_out_columns:
  "c \<in> set (out_columns cols) \<longleftrightarrow> c = LABEL \<or> (c \<in> set COLS_TO_KEEP \<and> c \<in> set cols)"
  by (auto simp: out_columns_def Let_def)

text \<open>A row after the loop over the caret columns, cell by cell.\<close>

lemma label_row_cell:
  "label_row L cols r c =
     (if c = LABEL then Some (IntV (if any_caret L cols r then 1 else 0))
      else if c \<in> set (ID_COL @ TEXT_COLS) \<and> c \<in> set cols
      then Some (astype_string L (cell_of r c))
      else if c \<in> set COLS_TO_KEEP \<and> c \<in> set cols then r c else None)"
proof -
  define keep where "keep = filter (\<lambda>c. c \<in> set cols) COLS_TO_KEEP"
  define cols' where "cols' = (if LABEL \<in> set keep then keep else keep @ [LABEL])"
  define r2 where "r2 = fold (convert_cell keep (astype_string L)) (ID_COL @ TEXT_COLS) (r |` set keep)"
  define r3 where "r3 = r2(LABEL \<mapsto> IntV 0)"
  define r4 where "r4 = fold (mark_cell L cols') cols_with_carets r3"
  have r4_eq: "label_row L cols r = r4"
    by (simp add: label_row_def Let_def r4_def r3_def r2_def cols'_def keep_def)
  have keep: "c \<in> set keep \<longleftrightarrow> c \<in> set COLS_TO_KEEP \<and> c \<in> set cols" for c
    by (auto simp: keep_def)
  have cols': "c \<in> set cols' \<longleftrightarrow> c = LABEL \<or> (c \<in> set COLS_TO_KEEP \<and> c \<in> set cols)" for c
    using keep by (auto simp: cols'_def)
  have r2: "r2 c = (if c \<in> set (ID_COL @ TEXT_COLS) \<and> c \<in> set cols
                    then Some (astype_string L (cell_of r c))
                    else if c \<in> set COLS_TO_KEEP \<and> c \<in> set cols then r c else None)" for c
  proof -
    have "r2 c = (if c \<in> set (ID_COL @ TEXT_COLS) \<and> c \<in> set keep
                  then Some (astype_string L (cell_of (r |` set keep) c)) else (r |` set keep) c)"
      unfolding r2_def by (rule fold_convert_cell [OF schema_distinct(1)])
    then show ?thesis
      using schema_subset(1) by (auto simp: keep cell_of_def restrict_map_def)
  qed
  have r3_label: "r3 LABEL = Some (IntV 0)"
    by (simp add: r3_def)
  have r3_cell: "cell_of r3 k = (if k \<in> set TEXT_COLS then astype_string L (cell_of r k) else cell_of r k)"
    if "k \<in> set cols_with_carets" "k \<in> set cols" for k
  proof -
    have "k \<noteq> LABEL" "k \<in> set COLS_TO_KEEP" "k \<notin> set ID_COL"
      using that schema_disjoint(8,9) schema_subset(4) by auto
    then show ?thesis
      using that by (auto simp: r3_def cell_of_def r2)
  qed
  have any: "(\<exists>k \<in> set cols_with_carets. k \<in> set cols' \<and> has_caret L (cell_of r3 k)) = any_caret L cols r"
  proof -
    have "k \<in> set cols' \<and> has_caret L (cell_of r3 k) \<longleftrightarrow> k \<in> set cols \<and> has_caret L (cell_of r k)"
      if "k \<in> set cols_with_carets" for k
    proof (cases "k \<in> set cols")
      case True
      then show ?thesis
        using that r3_cell [OF that True] schema_subset(4)
        by (auto simp: cols' has_caret_astype_string)
    next
      case False
      then show ?thesis
        using that schema_disjoint(8) by (auto simp: cols')
    qed
    then show ?thesis
      by (auto simp: any_caret_def)
  qed
  have r4: "r4 = r3(LABEL \<mapsto> IntV (if any_caret L cols r then 1 else 0))"
    unfolding r4_def
    using fold_mark_cell [where ks = cols_with_carets and r = r3 and a = False and L = L
        and cols = cols'] schema_disjoint(8)
    by (simp add: r3_label any)
  show ?thesis
    using schema_disjoint(5) by (simp add: r4_eq r4 r3_def r2)
qed

text \<open>The loop over the caret columns leaves the Nutrient columns as they were.\<close>

lemma numeric_col_label_row:
  assumes "c \<in> set NUTRIENT_COLS" and "c \<in> set cols"
  shows "numeric_col L c (map (label_row L cols) rs) = numeric_col L c rs"
proof -
  have "c \<noteq> LABEL" "c \<notin> set (ID_COL @ TEXT_COLS)" "c \<in> set COLS_TO_KEEP"
    using assms(1) schema_disjoint(1,6) schema_subset(2) by auto
  then have "cell_of (label_row L cols r) c = cell_of r c" for r
    using assms(2) by (simp add: cell_of_def label_row_cell)
  then show ?thesis
    by (simp add: numeric_col_def)
qed

lemma coerce_row_eq: "coerce_row L rs cols r = clean_row L rs cols r"
proof -
  define cols' where "cols' = out_columns cols"
  define r4 where "r4 = label_row L cols r"
  define r5 where "r5 = fold (\<lambda>c. convert_cell cols'
      (nutrient_cell L (numeric_col L c (map (label_row L cols) rs))) c) NUTRIENT_COLS r4"
  define r6 where "r6 = fold (convert_cell cols' (bool_cell L)) bool_cols r5"
  have r6: "coerce_row L rs cols r = r6"
    by (simp add: coerce_row_def Let_def r6_def r5_def r4_def cols'_def)
  have cols': "c \<in> set cols' \<longleftrightarrow> c = LABEL \<or> (c \<in> set COLS_TO_KEEP \<and> c \<in> set cols)" for c
    by (simp add: cols'_def in_out_columns)
  have r4: "r4 c =
     (if c = LABEL then Some (IntV (if any_caret L cols r then 1 else 0))
      else if c \<in> set (ID_COL @ TEXT_COLS) \<and> c \<in> set cols
      then Some (astype_string L (cell_of r c))
      else if c \<in> set COLS_TO_KEEP \<and> c \<in> set cols then r c else None)" for c
    unfolding r4_def by (rule label_row_cell)
  have r5: "r5 c = (if c \<in> set NUTRIENT_COLS \<and> c \<in> set cols'
      then Some (nutrient_cell L (numeric_col L c (map (label_row L cols) rs)) (cell_of r4 c))
      else r4 c)" for c
    unfolding r5_def by (rule fold_convert_cell_each [OF schema_distinct(2)])
  have r6': "r6 c = (if c \<in> set bool_cols \<and> c \<in> set cols' then Some (bool_cell L (cell_of r5 c)) else r5 c)" for c
    unfolding r6_def by (simp add: fold_convert_cell [OF schema_distinct(3)])
  have "r6 c = clean_row L rs cols r c" for c
  proof -
    consider (lab) "c = LABEL"
      | (str) "c \<in> set (ID_COL @ TEXT_COLS)"
      | (nut) "c \<in> set NUTRIENT_COLS"
      | (bool) "c \<in> set bool_cols"
      | (other) "c \<notin> set COLS_TO_KEEP"
      using schema_subset(6) by auto
    then show ?thesis
    proof cases
      case lab
      then show ?thesis
        using schema_disjoint by (simp add: r6' r5 r4 clean_row_def)
    next
      case str
      then have "c \<noteq> LABEL" "c \<notin> set NUTRIENT_COLS" "c \<notin> set bool_cols"
        using schema_disjoint by auto
      then show ?thesis
        using str by (simp add: r6' r5 r4 clean_row_def)
    next
      case nut
      then have "c \<noteq> LABEL" "c \<notin> set (ID_COL @ TEXT_COLS)" "c \<notin> set bool_cols" "c \<in> set COLS_TO_KEEP"
        using schema_disjoint schema_subset by auto
      then show ?thesis
        using nut numeric_col_label_row [OF nut, of cols L rs]
        by (simp add: r6' r5 r4 clean_row_def cols' cell_of_def)
    next
      case bool
      then have "c \<noteq> LABEL" "c \<notin> set (ID_COL @ TEXT_COLS)" "c \<notin> set NUTRIENT_COLS" "c \<in> set COLS_TO_KEEP"
        using schema_disjoint schema_subset by auto
      then show ?thesis
        using bool by (simp add: r6' r5 r4 clean_row_def cols' cell_of_def)
    next
      case other
      then have "c \<noteq> LABEL" "c \<notin> set (ID_COL @ TEXT_COLS)" "c \<notin> set NUTRIENT_COLS" "c \<notin> set bool_cols"
        using schema_subset by auto
      then show ?thesis
        using other by (simp add: r6' r5 r4 clean_row_def cols')
    qed
  qed
  then show ?thesis
    by (simp add: r6 fun_eq_iff)
qed

lemma rows_coerce: "rows (coerce L df) = map (clean_row L (rows df) (columns df)) (rows df)"
  by (simp add: rows_coerce_fold coerce_row_eq)

section \<open>The table \<^verbatim>\<open>clean\<close> returns\<close>

lemma gtin_in_schema: "''gtin'' \<in> set COLS_TO_KEEP" "''gtin'' \<noteq> LABEL"
  "''gtin'' \<in> set (ID_COL @ TEXT_COLS)"
  by (simp_all add: COLS_TO_KEEP_def ID_COL_def LABEL_def)

lemma ingredients_in_schema: "''ingredients_text'' \<in> set COLS_TO_KEEP"
  "''ingredients_text'' \<noteq> LABEL" "''ingredients_text'' \<in> set (ID_COL @ TEXT_COLS)"
  by (simp_all add: COLS_TO_KEEP_def ID_COL_def TEXT_COLS_def LABEL_def)

lemma take_rows_Inr: "take_rows idx xs = Inr ys \<Longrightarrow> set ys \<subseteq> set xs"
  by (auto simp: take_rows_def list_all_iff split: if_splits)

text \<open>The table \<^verbatim>\<open>clean\<close> returns, stage by stage.\<close>

lemma clean_data:
  "map_sum id fst (clean L df verbose) =
     (if ''gtin'' \<in> set (columns df)
      then map_sum id
             (\<lambda>srt. \<lparr>columns = out_columns (columns df),
                     rows = keep_first (\<lambda>r. cell_of r ''gtin'') [] srt\<rparr>)
             (take_rows (argsort L (map gtin_key (passed L df))) (passed L df))
      else Inl (KeyError ''gtin''))"
proof (cases "''gtin'' \<in> set (columns df)")
  case False
  then show ?thesis
    by (simp add: clean_def Let_def dropna_def columns_coerce in_out_columns gtin_in_schema)
next
  case True
  define D7 where "D7 = \<lparr>columns = out_columns (columns df),
      rows = filter (\<lambda>r. \<not> isna (cell_of r ''gtin'')) (map (clean_row L (rows df) (columns df)) (rows df))\<rparr>"
  define D8 where "D8 = \<lparr>columns = out_columns (columns df), rows = passed L df\<rparr>"
  have d7: "dropna ''gtin'' (coerce L df) = Inr D7"
    using True
    by (simp add: dropna_def columns_coerce rows_coerce in_out_columns gtin_in_schema D7_def)
  have d8: "(if ''ingredients_text'' \<in> set (columns D7)
             then keep_nonempty L ''ingredients_text'' D7 else D7) = D8"
    by (simp add: D7_def D8_def keep_nonempty_def passed_def in_out_columns
        ingredients_in_schema)
  have pres: "filter (\<lambda>r. \<not> isna (cell_of r ''gtin'')) (passed L df) = passed L df"
    by (rule filter_True) (auto simp: passed_def)
  have miss: "filter (\<lambda>r. isna (cell_of r ''gtin'')) (passed L df) = []"
    by (auto simp: passed_def filter_empty_conv)
  have d9: "sort_values L ''gtin'' D8 =
            map_sum id (\<lambda>srt. \<lparr>columns = out_columns (columns df), rows = srt\<rparr>)
              (take_rows (argsort L (map gtin_key (passed L df))) (passed L df))"
    using True
    by (simp add: sort_values_def D8_def in_out_columns gtin_in_schema pres miss Let_def
        gtin_key_def [abs_def] split: sum.splits)
  show ?thesis
  proof (cases "take_rows (argsort L (map gtin_key (passed L df))) (passed L df)")
    case (Inl e)
    with True show ?thesis
      by (simp add: clean_def Let_def d7 d8 d9)
  next
    case (Inr srt)
    with True show ?thesis
      by (simp add: clean_def Let_def d7 d8 d9 drop_duplicates_def)
  qed
qed

lemma clean_InrD:
  assumes "clean L df verbose = Inr (out, printed)"
  shows "''gtin'' \<in> set (columns df)"
    and "\<exists>srt. take_rows (argsort L (map gtin_key (passed L df))) (passed L df) = Inr srt \<and>
           out = \<lparr>columns = out_columns (columns df),
                  rows = keep_first (\<lambda>r. cell_of r ''gtin'') [] srt\<rparr>"
proof -
  have eq: "map_sum id fst (clean L df verbose) = Inr out"
    by (simp add: assms)
  show gtin: "''gtin'' \<in> set (columns df)"
    using eq by (auto simp: clean_data split: if_splits)
  show "\<exists>srt. take_rows (argsort L (map gtin_key (passed L df))) (passed L df) = Inr srt \<and>
           out = \<lparr>columns = out_columns (columns df),
                  rows = keep_first (\<lambda>r. cell_of r ''gtin'') [] srt\<rparr>"
    using eq gtin
    by (cases "take_rows (argsort L (map gtin_key (passed L df))) (passed L df)")
      (auto simp: clean_data)
qed

lemma clean_InlD:
  assumes "clean L df verbose = Inl e"
  shows "(''gtin'' \<notin> set (columns df) \<and> e = KeyError ''gtin'') \<or>
         (''gtin'' \<in> set (columns df) \<and>
          take_rows (argsort L (map gtin_key (passed L df))) (passed L df) = Inl e)"
proof -
  have eq: "map_sum id fst (clean L df verbose) = Inl e"
    by (simp add: assms)
  then show ?thesis
    by (cases "take_rows (argsort L (map gtin_key (passed L df))) (passed L df)")
      (auto simp: clean_data split: if_splits)
qed

lemma set_keep_first: "set (keep_first key seen xs) \<subseteq> set xs"
  by (induction xs arbitrary: seen) auto

lemma keys_keep_first:
  "set (map key (keep_first key seen xs)) = set (map key xs) - set seen"
  by (induction xs arbitrary: seen) auto

lemma distinct_keep_first: "distinct (map key (keep_first key seen xs))"
proof (induction xs arbitrary: seen)
  case Nil
  show ?case by simp
next
  case (Cons x xs)
  have "key x \<notin> set (map key (keep_first key (key x # seen) xs))"
    by (simp only: keys_keep_first) simp
  with Cons show ?case by simp
qed

lemma map_preimage: "set ys \<subseteq> f ` A \<Longrightarrow> \<exists>xs. ys = map f xs \<and> set xs \<subseteq> A"
proof (induction ys)
  case Nil
  show ?case by simp
next
  case (Cons y ys)
  then obtain xs x where "ys = map f xs" "set xs \<subseteq> A" "y = f x" "x \<in> A"
    by auto
  then have "y # ys = map f (x # xs) \<and> set (x # xs) \<subseteq> A"
    by simp
  then show ?case by (rule exI)
qed

lemma set_passed: "set (passed L df) \<subseteq> clean_row L (rows df) (columns df) ` set (rows df)"
  by (auto simp: passed_def)

text \<open>Every row of the result is the cleaned form of a row of the input.\<close>

lemma clean_sources:
  assumes "clean L df verbose = Inr (out, printed)"
  shows "set (rows out) \<subseteq> set (passed L df)"
    and "\<exists>src. set src \<subseteq> set (rows df) \<and> rows out = map (clean_row L (rows df) (columns df)) src"
proof -
  obtain srt where srt: "take_rows (argsort L (map gtin_key (passed L df))) (passed L df) = Inr srt"
    and out: "out = \<lparr>columns = out_columns (columns df),
                  rows = keep_first (\<lambda>r. cell_of r ''gtin'') [] srt\<rparr>"
    using clean_InrD(2) [OF assms] by blast
  have "set (rows out) \<subseteq> set srt"
    by (simp add: out set_keep_first)
  also have "\<dots> \<subseteq> set (passed L df)"
    using srt by (rule take_rows_Inr)
  finally show sub: "set (rows out) \<subseteq> set (passed L df)" .
  then have "set (rows out) \<subseteq> clean_row L (rows df) (columns df) ` set (rows df)"
    using set_passed by blast
  then obtain src where "rows out = map (clean_row L (rows df) (columns df)) src" "set src \<subseteq> set (rows df)"
    using map_preimage by blast
  then show "\<exists>src. set src \<subseteq> set (rows df) \<and> rows out = map (clean_row L (rows df) (columns df)) src"
    by blast
qed

lemma clean_row_label:
  "cell_of (clean_row L rs cols r) LABEL = IntV (if any_caret L cols r then 1 else 0)"
  by (simp add: clean_row_def cell_of_def)

lemma clean_row_text:
  "c \<in> set (ID_COL @ TEXT_COLS) \<Longrightarrow> c \<in> set cols \<Longrightarrow>
   cell_of (clean_row L rs cols r) c = astype_string L (cell_of r c)"
  using schema_disjoint(5) by (auto simp: clean_row_def cell_of_def)

lemma clean_row_nutrient:
  "c \<in> set NUTRIENT_COLS \<Longrightarrow> c \<in> set cols \<Longrightarrow>
   cell_of (clean_row L rs cols r) c = nutrient_cell L (numeric_col L c rs) (cell_of r c)"
  using schema_disjoint(1,6) by (auto simp: clean_row_def cell_of_def)

lemma clean_row_bool:
  "c \<in> set bool_cols \<Longrightarrow> c \<in> set cols \<Longrightarrow>
   cell_of (clean_row L rs cols r) c = bool_cell L (cell_of r c)"
  using schema_disjoint(2,3,7) by (auto simp: clean_row_def cell_of_def)

lemma list_all2_map_same: "list_all2 P xs (map g xs) \<longleftrightarrow> (\<forall>x \<in> set xs. P x (g x))"
  by (simp add: list_all2_map2 list_all2_same)

section \<open>Evaluating \<^verbatim>\<open>clean\<close> on the example table\<close>

lemma demo_schema:
  "''gtin'' \<in> set (ID_COL @ TEXT_COLS)" "''ingredients_text'' \<in> set (ID_COL @ TEXT_COLS)"
  "''calories'' \<in> set NUTRIENT_COLS" "''is_seed_oil'' \<in> set bool_cols"
  "''gtin'' \<notin> set cols_with_carets" "''ingredients_text'' \<in> set cols_with_carets"
  "''calories'' \<in> set cols_with_carets" "''is_seed_oil'' \<in> set cols_with_carets"
  by (simp_all add: ID_COL_def TEXT_COLS_def NUTRIENT_COLS_def TAG_COLS_def FLAG_COLS_def
      bool_cols_def cols_with_carets_def)

lemma demo_out_columns:
  "out_columns demo_cols = [''gtin'', ''ingredients_text'', ''calories'', ''is_seed_oil'', ''label_is_anomaly'']"
  by (simp add: out_columns_def demo_cols_def COLS_TO_KEEP_def ID_COL_def TEXT_COLS_def NUTRIENT_COLS_def TAG_COLS_def FLAG_COLS_def LABEL_def)

lemma any_caret_cols:
  "any_caret L cols r = (\<exists>k \<in> set cols. k \<in> set cols_with_carets \<and> has_caret L (cell_of r k))"
  by (auto simp: any_caret_def)

lemma demo_row_cells:
  "cell_of (demo_row g i c s) ''gtin'' = g"
  "cell_of (demo_row g i c s) ''ingredients_text'' = i"
  "cell_of (demo_row g i c s) ''calories'' = c"
  "cell_of (demo_row g i c s) ''is_seed_oil'' = s"
  by (simp_all add: demo_row_def cell_of_def)

lemma demo_in_cols:
  "''gtin'' \<in> set demo_cols" "''ingredients_text'' \<in> set demo_cols"
  "''calories'' \<in> set demo_cols" "''is_seed_oil'' \<in> set demo_cols"
  by (simp_all add: demo_cols_def)

lemma demo_cells:
  "cell_of (clean_row L rs demo_cols r) ''gtin'' = astype_string L (cell_of r ''gtin'')"
  "cell_of (clean_row L rs demo_cols r) ''ingredients_text'' =
     astype_string L (cell_of r ''ingredients_text'')"
  "cell_of (clean_row L rs demo_cols r) ''calories'' = nutrient_cell L (numeric_col L ''calories'' rs) (cell_of r ''calories'')"
  "cell_of (clean_row L rs demo_cols r) ''is_seed_oil'' = bool_cell L (cell_of r ''is_seed_oil'')"
  "cell_of (clean_row L rs demo_cols r) LABEL =
     IntV (if has_caret L (cell_of r ''ingredients_text'') \<or> has_caret L (cell_of r ''calories'')
              \<or> has_caret L (cell_of r ''is_seed_oil'') then 1 else 0)"
proof -
  show "cell_of (clean_row L rs demo_cols r) ''gtin'' = astype_string L (cell_of r ''gtin'')"
    by (rule clean_row_text [OF demo_schema(1) demo_in_cols(1)])
  show "cell_of (clean_row L rs demo_cols r) ''ingredients_text'' =
     astype_string L (cell_of r ''ingredients_text'')"
    by (rule clean_row_text [OF demo_schema(2) demo_in_cols(2)])
  show "cell_of (clean_row L rs demo_cols r) ''calories'' = nutrient_cell L (numeric_col L ''calories'' rs) (cell_of r ''calories'')"
    by (rule clean_row_nutrient [OF demo_schema(3) demo_in_cols(3)])
  show "cell_of (clean_row L rs demo_cols r) ''is_seed_oil'' = bool_cell L (cell_of r ''is_seed_oil'')"
    by (rule clean_row_bool [OF demo_schema(4) demo_in_cols(4)])
  have "any_caret L demo_cols r \<longleftrightarrow>
          has_caret L (cell_of r ''ingredients_text'') \<or> has_caret L (cell_of r ''calories'')
              \<or> has_caret L (cell_of r ''is_seed_oil'')"
    unfolding any_caret_cols using demo_schema(5-8) by (simp add: demo_cols_def)
  then show "cell_of (clean_row L rs demo_cols r) LABEL =
     IntV (if has_caret L (cell_of r ''ingredients_text'') \<or> has_caret L (cell_of r ''calories'')
              \<or> has_caret L (cell_of r ''is_seed_oil'') then 1 else 0)"
    by (simp add: clean_row_label)
qed

lemma clean_eval:
  assumes "''gtin'' \<in> set (columns df)"
    and "passed L df = P"
    and "map gtin_key P = ks"
    and "argsort L ks = idx"
    and "take_rows idx P = Inr srt"
    and "keep_first (\<lambda>r. cell_of r ''gtin'') [] srt = res"
  shows "\<exists>printed. clean L df verbose =
           Inr (\<lparr>columns = out_columns (columns df), rows = res\<rparr>, printed)"
proof -
  have "map_sum id fst (clean L df verbose) =
          Inr \<lparr>columns = out_columns (columns df), rows = res\<rparr>"
    using assms by (simp add: clean_data)
  then show ?thesis
    by (cases "clean L df verbose") auto
qed

lemmas string_defs = strip_def lstrip_def rstrip_def whitespace_def endswith_def upper_def
  upper_char_def

lemma demo_passed:
  "passed py demo =
     [clean_row py (rows demo) demo_cols (demo_row (Str ''7'') (Str ''oil'') (Str ''-5'') (Str ''true'')),
      clean_row py (rows demo) demo_cols (demo_row (Str ''7'') (Str ''oil^'') (Str ''abc'') (Str ''1'')),
      clean_row py (rows demo) demo_cols (demo_row (Str ''123'') (Str ''milk^'') (Str ''50^'') (Str ''YES''))]"
  by (simp add: passed_def demo_def demo_cells demo_row_cells demo_in_cols astype_string_def
      nonempty_text_def string_defs)

lemma demo_keys:
  "map gtin_key
     [clean_row py (rows demo) demo_cols (demo_row (Str ''7'') (Str ''oil'') (Str ''-5'') (Str ''true'')),
      clean_row py (rows demo) demo_cols (demo_row (Str ''7'') (Str ''oil^'') (Str ''abc'') (Str ''1'')),
      clean_row py (rows demo) demo_cols (demo_row (Str ''123'') (Str ''milk^'') (Str ''50^'') (Str ''YES''))]
   = [''7'', ''7'', ''123'']"
  by (simp add: gtin_key_def demo_cells demo_row_cells astype_string_def str_key_def)

lemma demo_argsort: "argsort py [''7'', ''7'', ''123''] = [2, 0, 1]"
  by (simp add: py_def stable_argsort_def)

lemma demo_clean: "\<exists>printed. clean py demo verbose = Inr (demo_out, printed)"
proof -
  have "\<exists>printed. clean py demo verbose =
          Inr (\<lparr>columns = out_columns (columns demo), rows = rows demo_out\<rparr>, printed)"
  proof (rule clean_eval)
    show "''gtin'' \<in> set (columns demo)"
      by (simp add: demo_def demo_cols_def)
    show "passed py demo = 
     [clean_row py (rows demo) demo_cols (demo_row (Str ''7'') (Str ''oil'') (Str ''-5'') (Str ''true'')),
      clean_row py (rows demo) demo_cols (demo_row (Str ''7'') (Str ''oil^'') (Str ''abc'') (Str ''1'')),
      clean_row py (rows demo) demo_cols (demo_row (Str ''123'') (Str ''milk^'') (Str ''50^'') (Str ''YES''))]"
      by (rule demo_passed)
    show "map gtin_key
     [clean_row py (rows demo) demo_cols (demo_row (Str ''7'') (Str ''oil'') (Str ''-5'') (Str ''true'')),
      clean_row py (rows demo) demo_cols (demo_row (Str ''7'') (Str ''oil^'') (Str ''abc'') (Str ''1'')),
      clean_row py (rows demo) demo_cols (demo_row (Str ''123'') (Str ''milk^'') (Str ''50^'') (Str ''YES''))]
      = [''7'', ''7'', ''123'']"
      by (rule demo_keys)
    show "argsort py [''7'', ''7'', ''123''] = [2, 0, 1]"
      by (rule demo_argsort)
    show "take_rows [2, 0, 1]
     [clean_row py (rows demo) demo_cols (demo_row (Str ''7'') (Str ''oil'') (Str ''-5'') (Str ''true'')),
      clean_row py (rows demo) demo_cols (demo_row (Str ''7'') (Str ''oil^'') (Str ''abc'') (Str ''1'')),
      clean_row py (rows demo) demo_cols (demo_row (Str ''123'') (Str ''milk^'') (Str ''50^'') (Str ''YES''))]
     = Inr [clean_row py (rows demo) demo_cols (demo_row (Str ''123'') (Str ''milk^'') (Str ''50^'') (Str ''YES'')),
        clean_row py (rows demo) demo_cols (demo_row (Str ''7'') (Str ''oil'') (Str ''-5'') (Str ''true'')),
        clean_row py (rows demo) demo_cols (demo_row (Str ''7'') (Str ''oil^'') (Str ''abc'') (Str ''1''))]"
      by (simp add: take_rows_def)
    show "keep_first (\<lambda>r. cell_of r ''gtin'') []
       [clean_row py (rows demo) demo_cols (demo_row (Str ''123'') (Str ''milk^'') (Str ''50^'') (Str ''YES'')),
        clean_row py (rows demo) demo_cols (demo_row (Str ''7'') (Str ''oil'') (Str ''-5'') (Str ''true'')),
        clean_row py (rows demo) demo_cols (demo_row (Str ''7'') (Str ''oil^'') (Str ''abc'') (Str ''1''))]
       = rows demo_out"
      by (simp add: demo_out_def demo_cells demo_row_cells astype_string_def)
  qed
  moreover have "\<lparr>columns = out_columns (columns demo), rows = rows demo_out\<rparr> = demo_out"
    by (simp add: demo_def demo_out_columns demo_out_def)
  ultimately show ?thesis by simp
qed

lemma demo_values:
  "to_lists demo_out =
     [[Str ''123'', Str ''milk^'', NumV 50, BoolV False, IntV 1],
      [Str ''7'', Str ''oil'', NumV (- 5), BoolV True, IntV 0]]"
  apply (simp add: to_lists_def demo_out_def demo_cells [unfolded LABEL_def] demo_row_cells)
  apply (simp add: astype_string_def nutrient_cell_def numeric_val_def to_numeric_cell_def
      fillna_def bool_cell_def bool_map_def has_caret_def string_defs py_def parse_int_def
      digit_val_def)
  done

section \<open>The cells of a cleaned row\<close>

lemma astype_string_cases: "astype_string L x = PdNA \<and> isna x \<or> astype_string L x = Str (astype_str L x) \<and> \<not> isna x"
  by (simp add: astype_string_def)

lemma bool_cell_eq:
  "bool_cell L x = BoolV (upper (astype_str L x) = ''TRUE'' \<or> upper (astype_str L x) = ''1'')"
  by (simp add: bool_cell_def bool_map_def)

lemma bool_cell_missing: "isna x \<Longrightarrow> bool_cell L x = BoolV False"
  by (cases x) (simp_all add: bool_cell_eq upper_def upper_char_def)

section \<open>When \<^verbatim>\<open>clean\<close> raises\<close>

lemma take_rows_in_range:
  "in_range L \<Longrightarrow> length xs = length ks \<Longrightarrow>
   take_rows (argsort L ks) xs = Inr (map (\<lambda>i. xs ! i) (argsort L ks))"
  by (auto simp: take_rows_def in_range_def list_all_iff)

lemma map_sum_fst_Inl: "map_sum id fst x = Inl e \<longleftrightarrow> x = Inl e"
  by (cases x) auto

section \<open>A label column in the input\<close>

lemma out_columns_eq: "out_columns cols = filter (\<lambda>c. c \<in> set cols) SCHEMA @ [LABEL]"
proof -
  have keep: "COLS_TO_KEEP = SCHEMA @ [LABEL]"
    by (simp add: COLS_TO_KEEP_def SCHEMA_def)
  have "LABEL \<notin> set SCHEMA"
    using distinct_schema by (simp add: SCHEMA_def)
  then show ?thesis
    by (auto simp: out_columns_def keep)
qed

lemma out_columns_removeAll: "out_columns (removeAll LABEL cols) = out_columns cols"
proof -
  have "LABEL \<notin> set SCHEMA"
    using distinct_schema by (simp add: SCHEMA_def)
  then have "filter (\<lambda>c. c \<in> set (removeAll LABEL cols)) SCHEMA = filter (\<lambda>c. c \<in> set cols) SCHEMA"
    by (intro filter_cong) auto
  then show ?thesis
    by (simp add: out_columns_eq)
qed

lemma clean_row_cong:
  assumes mem: "\<And>c. c \<in> set COLS_TO_KEEP \<Longrightarrow> c \<noteq> LABEL \<Longrightarrow> c \<in> set cols \<longleftrightarrow> c \<in> set cols'"
    and cells: "\<And>c. c \<in> set COLS_TO_KEEP \<Longrightarrow> c \<noteq> LABEL \<Longrightarrow> c \<in> set cols \<Longrightarrow> cell_of r c = cell_of r' c"
    and column: "\<And>c. c \<in> set NUTRIENT_COLS \<Longrightarrow> c \<in> set cols \<Longrightarrow>
                   numeric_col L c rs = numeric_col L c rs'"
  shows "clean_row L rs cols r = clean_row L rs' cols' r'"
proof -
  have any: "any_caret L cols r = any_caret L cols' r'"
  proof -
    have "k \<in> set cols \<and> has_caret L (cell_of r k) \<longleftrightarrow> k \<in> set cols' \<and> has_caret L (cell_of r' k)"
      if "k \<in> set cols_with_carets" for k
    proof -
      have "k \<in> set COLS_TO_KEEP" "k \<noteq> LABEL"
        using that schema_subset(4) schema_disjoint(8) by auto
      then show ?thesis
        using mem [of k] cells [of k] by auto
    qed
    then show ?thesis
      by (auto simp: any_caret_def)
  qed
  have "clean_row L rs cols r c = clean_row L rs' cols' r' c" for c
  proof (cases "c \<in> set COLS_TO_KEEP \<and> c \<noteq> LABEL")
    case True
    then show ?thesis
      using mem [of c] cells [of c] column [of c] by (auto simp: clean_row_def)
  next
    case False
    then consider "c = LABEL" | "c \<notin> set COLS_TO_KEEP" by blast
    then show ?thesis
    proof cases
      case 1
      then show ?thesis by (simp add: clean_row_def any)
    next
      case 2
      then have "c \<noteq> LABEL" "c \<notin> set (ID_COL @ TEXT_COLS)" "c \<notin> set NUTRIENT_COLS" "c \<notin> set bool_cols"
        using schema_subset by auto
      then show ?thesis by (simp add: clean_row_def)
    qed
  qed
  then show ?thesis by (rule ext)
qed

lemma clean_row_out_columns: "clean_row L rs (out_columns cols) r = clean_row L rs cols r"
  by (rule clean_row_cong) (auto simp: in_out_columns)

lemma coerce_without_label:
  "coerce L \<lparr>columns = removeAll LABEL (columns df), rows = map (\<lambda>r. r(LABEL := None)) (rows df)\<rparr>
     = coerce L df"
proof (rule dataframe.equality)
  let ?df = "\<lparr>columns = removeAll LABEL (columns df), rows = map (\<lambda>r. r(LABEL := None)) (rows df)\<rparr>"
  show "columns (coerce L ?df) = columns (coerce L df)"
    by (simp add: columns_coerce out_columns_removeAll)
  have "clean_row L (map (\<lambda>r. r(LABEL := None)) (rows df)) (removeAll LABEL (columns df))
          (r(LABEL := None)) = clean_row L (rows df) (columns df) r" for r
  proof (rule clean_row_cong)
    fix c
    assume "c \<in> set NUTRIENT_COLS"
    then have "c \<noteq> LABEL"
      using schema_disjoint(6) by auto
    then show "numeric_col L c (map (\<lambda>r. r(LABEL := None)) (rows df)) = numeric_col L c (rows df)"
      by (simp add: numeric_col_def cell_of_def)
  qed (auto simp: cell_of_def)
  then show "rows (coerce L ?df) = rows (coerce L df)"
    by (simp add: rows_coerce)
  show "dataframe.more (coerce L ?df) = dataframe.more (coerce L df)"
    by simp
qed

section \<open>Tables with one row\<close>

lemma clean_one_row:
  assumes "''gtin'' \<in> set (columns df)" and "passed L df = [r]"
    and "argsort L [gtin_key r] = [0]"
  shows "\<exists>printed. clean L df verbose =
           Inr (\<lparr>columns = out_columns (columns df), rows = [r]\<rparr>, printed)"
  by (rule clean_eval [where P = "[r]" and ks = "[gtin_key r]" and idx = "[0]" and srt = "[r]"])
    (simp_all add: assms take_rows_def)

lemma py_argsort_one: "argsort py [k] = [0]"
  by (simp add: py_def stable_argsort_def)

lemma py_in_range: "in_range py"
  by (simp add: in_range_def py_def stable_argsort_def)

lemma blank_gtin_clean:
  "\<exists>printed. clean py blank_gtin verbose =
     Inr (\<lparr>columns = out_columns demo_cols,
           rows = [clean_row py (rows blank_gtin) demo_cols (demo_row (Str []) (Str ''x'') (Str ''1'') (Str ''0''))]\<rparr>,
          printed)"
proof -
  have "passed py blank_gtin =
          [clean_row py (rows blank_gtin) demo_cols (demo_row (Str []) (Str ''x'') (Str ''1'') (Str ''0''))]"
    by (simp add: passed_def blank_gtin_def demo_cells demo_row_cells demo_in_cols
        astype_string_def nonempty_text_def string_defs)
  then show ?thesis
    using clean_one_row [of blank_gtin py _ verbose] py_argsort_one
    by (simp add: blank_gtin_def demo_in_cols)
qed

lemma scenario_in_cols:
  "''gtin'' \<in> set scenario_cols" "''ingredients_text'' \<in> set scenario_cols"
  "''calories'' \<in> set scenario_cols"
  by (simp_all add: scenario_cols_def)

lemma scenario_out_columns:
  "out_columns scenario_cols = [''gtin'', ''ingredients_text'', ''calories'', ''label_is_anomaly'']"
  by (simp add: out_columns_eq scenario_cols_def SCHEMA_def ID_COL_def TEXT_COLS_def
      NUTRIENT_COLS_def TAG_COLS_def FLAG_COLS_def LABEL_def)

lemma scenario_row_cells:
  "cell_of scenario_row ''gtin'' = Str ''123''"
  "cell_of scenario_row ''ingredients_text'' = Str ''milk^''"
  "cell_of scenario_row ''calories'' = Str ''50^''"
  by (simp_all add: scenario_row_def cell_of_def)

lemma scenario_cells:
  "cell_of (clean_row L rs scenario_cols r) ''gtin'' = astype_string L (cell_of r ''gtin'')"
  "cell_of (clean_row L rs scenario_cols r) ''ingredients_text'' =
     astype_string L (cell_of r ''ingredients_text'')"
  "cell_of (clean_row L rs scenario_cols r) ''calories'' = nutrient_cell L (numeric_col L ''calories'' rs) (cell_of r ''calories'')"
  "cell_of (clean_row L rs scenario_cols r) LABEL =
     IntV (if has_caret L (cell_of r ''ingredients_text'') \<or> has_caret L (cell_of r ''calories'')
           then 1 else 0)"
proof -
  show "cell_of (clean_row L rs scenario_cols r) ''gtin'' = astype_string L (cell_of r ''gtin'')"
    by (rule clean_row_text [OF demo_schema(1) scenario_in_cols(1)])
  show "cell_of (clean_row L rs scenario_cols r) ''ingredients_text'' =
     astype_string L (cell_of r ''ingredients_text'')"
    by (rule clean_row_text [OF demo_schema(2) scenario_in_cols(2)])
  show "cell_of (clean_row L rs scenario_cols r) ''calories'' = nutrient_cell L (numeric_col L ''calories'' rs) (cell_of r ''calories'')"
    by (rule clean_row_nutrient [OF demo_schema(3) scenario_in_cols(3)])
  have "any_caret L scenario_cols r \<longleftrightarrow>
          has_caret L (cell_of r ''ingredients_text'') \<or> has_caret L (cell_of r ''calories'')"
    unfolding any_caret_cols using demo_schema(5-7) by (simp add: scenario_cols_def)
  then show "cell_of (clean_row L rs scenario_cols r) LABEL =
     IntV (if has_caret L (cell_of r ''ingredients_text'') \<or> has_caret L (cell_of r ''calories'')
           then 1 else 0)"
    by (simp add: clean_row_label)
qed

lemma scenario_clean:
  assumes "argsort L [''123''] = [0]"
  shows "\<exists>printed. clean L scenario verbose =
     Inr (\<lparr>columns = out_columns scenario_cols,
           rows = [clean_row L [scenario_row] scenario_cols scenario_row]\<rparr>, printed)"
proof -
  have p: "passed L scenario = [clean_row L [scenario_row] scenario_cols scenario_row]"
    by (simp add: passed_def scenario_def scenario_cells scenario_row_cells scenario_in_cols
        astype_string_def nonempty_text_def string_defs)
  have k: "gtin_key (clean_row L [scenario_row] scenario_cols scenario_row) = ''123''"
    by (simp add: gtin_key_def scenario_cells scenario_row_cells astype_string_def str_key_def)
  show ?thesis
    using clean_one_row [of scenario L _ verbose, OF _ p] assms
    by (simp add: scenario_def scenario_in_cols k)
qed

lemma scenario_values:
  assumes "to_numeric L [''50''] ''50'' = Some fifty"
  shows "map (cell_of (clean_row L [scenario_row] scenario_cols scenario_row))
           [''gtin'', ''ingredients_text'', ''calories'', ''label_is_anomaly''] =
         [Str ''123'', Str ''milk^'', NumV fifty, IntV 1]"
  apply (simp add: scenario_cells [unfolded LABEL_def] scenario_row_cells)
  apply (simp add: astype_string_def nutrient_cell_def numeric_col_def numeric_val_def
      to_numeric_cell_def fillna_def has_caret_def string_defs scenario_row_cells assms)
  done

lemma py_fifty: "to_numeric py [''50''] ''50'' = Some 50"
  by (simp add: py_def parse_int_def digit_val_def)

section \<open>Cleaning a cleaned table\<close>

lemma sorts_in_range: "sorts L \<Longrightarrow> in_range L"
  by (auto simp: sorts_def in_range_def)

lemma keep_first_id:
  "distinct (map key xs) \<Longrightarrow> set (map key xs) \<inter> set seen = {} \<Longrightarrow> keep_first key seen xs = xs"
  by (induction xs arbitrary: seen) auto

lemma keep_first_sorted:
  "sorted (map f xs) \<Longrightarrow> sorted (map f (keep_first key seen xs))"
proof (induction xs arbitrary: seen)
  case Nil
  show ?case by simp
next
  case (Cons x xs)
  have "set (keep_first key s xs) \<subseteq> set xs" for s
    by (rule set_keep_first)
  with Cons show ?case
    by (auto simp: subset_iff)
qed

lemma argsort_sorted_distinct:
  assumes "sorts L" and "sorted ks" and "distinct ks"
  shows "argsort L ks = [0 ..< length ks]"
proof -
  let ?idx = "argsort L ks"
  have idx: "distinct ?idx" "set ?idx = {0 ..< length ks}" "sorted (map (\<lambda>i. ks ! i) ?idx)"
    using assms(1) by (simp_all add: sorts_def)
  have inj: "inj_on (\<lambda>i. ks ! i) {0 ..< length ks}"
    using assms(3) by (auto simp: inj_on_def nth_eq_iff_index_eq)
  have "distinct (map (\<lambda>i. ks ! i) ?idx)"
    using idx(1,2) inj by (simp add: distinct_map)
  moreover have "set (map (\<lambda>i. ks ! i) ?idx) = set ks"
  proof -
    have "set ks = (\<lambda>i. ks ! i) ` {0 ..< length ks}"
      by (auto simp: set_conv_nth)
    then show ?thesis
      by (simp add: idx(2))
  qed
  ultimately have "map (\<lambda>i. ks ! i) ?idx = ks"
    using idx(3) assms(2,3) by (intro sorted_distinct_set_unique) auto
  also have "ks = map (\<lambda>i. ks ! i) [0 ..< length ks]"
    by (simp add: map_nth)
  finally have "map (\<lambda>i. ks ! i) ?idx = map (\<lambda>i. ks ! i) [0 ..< length ks]" .
  moreover have "inj_on (\<lambda>i. ks ! i) (set ?idx \<union> set [0 ..< length ks])"
    using inj idx(2) by simp
  ultimately show ?thesis
    by (rule inj_on_map_eq_map [THEN iffD1, rotated])
qed

lemma passed_gtin_str:
  assumes "''gtin'' \<in> set (columns df)" and "r \<in> set (passed L df)"
  shows "cell_of r ''gtin'' = Str (gtin_key r)"
proof -
  obtain raw where r: "r = clean_row L (rows df) (columns df) raw"
    and notna: "\<not> isna (cell_of r ''gtin'')"
    using assms(2) by (auto simp: passed_def)
  have "cell_of r ''gtin'' = astype_string L (cell_of raw ''gtin'')"
    unfolding r by (rule clean_row_text [OF gtin_in_schema(3) assms(1)])
  then have "\<exists>s. cell_of r ''gtin'' = Str s"
    using notna astype_string_cases [of L "cell_of raw ''gtin''"] by auto
  then show ?thesis
    by (auto simp: gtin_key_def str_key_def)
qed

lemma astype_string_idem: "astype_string L (astype_string L x) = astype_string L x"
  by (simp add: astype_string_def)

lemma bool_cell_idem: "bool_cell L (bool_cell L x) = bool_cell L x"
  by (simp add: bool_cell_eq upper_def upper_char_def)

text \<open>Cleaning a cleaned row again changes nothing in the identifier and text cells.\<close>

lemma clean_row_twice_text:
  assumes "c \<in> set (ID_COL @ TEXT_COLS)" and "c \<in> set cols"
  shows "cell_of (clean_row L rs' cols (clean_row L rs cols r)) c = cell_of (clean_row L rs cols r) c"
  by (simp add: clean_row_text [OF assms] astype_string_idem)

lemma clean_row_out_columns_fun: "clean_row L rs (out_columns cols) = clean_row L rs cols"
  by (rule ext) (rule clean_row_out_columns)

lemma passed_again:
  assumes gtin: "''gtin'' \<in> set (columns df)"
    and ys: "set ys \<subseteq> set (passed L df)"
  shows "passed L \<lparr>columns = out_columns (columns df), rows = ys\<rparr> =
           map (clean_row L ys (columns df)) ys"
proof -
  let ?g = "clean_row L ys (columns df)"
  have ing: "''ingredients_text'' \<in> set (out_columns (columns df)) \<longleftrightarrow>
             ''ingredients_text'' \<in> set (columns df)"
    by (simp add: in_out_columns ingredients_in_schema)
  have ok: "\<not> isna (cell_of (?g y) ''gtin'') \<and>
            (''ingredients_text'' \<in> set (columns df) \<longrightarrow>
               nonempty_text L (cell_of (?g y) ''ingredients_text''))" if "y \<in> set ys" for y
  proof -
    have y: "y \<in> set (passed L df)"
      using that ys by blast
    then obtain raw where raw: "y = clean_row L (rows df) (columns df) raw"
      by (auto simp: passed_def)
    have "cell_of (?g y) ''gtin'' = cell_of y ''gtin''"
      unfolding raw by (rule clean_row_twice_text [OF gtin_in_schema(3) gtin])
    moreover have "cell_of (?g y) ''ingredients_text'' = cell_of y ''ingredients_text''"
      if "''ingredients_text'' \<in> set (columns df)"
      unfolding raw by (rule clean_row_twice_text [OF ingredients_in_schema(3) that])
    ultimately show ?thesis
      using y by (auto simp: passed_def)
  qed
  have "passed L \<lparr>columns = out_columns (columns df), rows = ys\<rparr> =
          filter (\<lambda>r. ''ingredients_text'' \<in> set (columns df) \<longrightarrow>
                       nonempty_text L (cell_of r ''ingredients_text''))
            (filter (\<lambda>r. \<not> isna (cell_of r ''gtin'')) (map ?g ys))"
    by (simp add: passed_def ing clean_row_out_columns_fun)
  also have "\<dots> = map ?g ys"
    using ok by (simp add: filter_id_conv)
  finally show ?thesis .
qed

lemma out_columns_idem: "out_columns (out_columns cols) = out_columns cols"
proof -
  have "LABEL \<notin> set SCHEMA"
    using distinct_schema by (simp add: SCHEMA_def)
  then have "filter (\<lambda>c. c \<in> set (out_columns cols)) SCHEMA = filter (\<lambda>c. c \<in> set cols) SCHEMA"
    by (intro filter_cong) (auto simp: out_columns_eq)
  then show ?thesis
    by (simp add: out_columns_eq [of "out_columns cols"]) (simp add: out_columns_eq)
qed

lemma first_pass:
  assumes "sorts L" and "clean L df verbose = Inr (out, printed)"
  shows "out = \<lparr>columns = out_columns (columns df), rows = rows out\<rparr>"
    and "set (rows out) \<subseteq> set (passed L df)"
    and "distinct (map (\<lambda>r. cell_of r ''gtin'') (rows out))"
    and "distinct (map gtin_key (rows out))"
    and "sorted (map gtin_key (rows out))"
proof -
  let ?P = "passed L df"
  let ?idx = "argsort L (map gtin_key ?P)"
  have gtin: "''gtin'' \<in> set (columns df)"
    using clean_InrD(1) [OF assms(2)] .
  obtain srt where srt: "take_rows ?idx ?P = Inr srt"
    and out: "out = \<lparr>columns = out_columns (columns df),
                  rows = keep_first (\<lambda>r. cell_of r ''gtin'') [] srt\<rparr>"
    using clean_InrD(2) [OF assms(2)] by blast
  show "out = \<lparr>columns = out_columns (columns df), rows = rows out\<rparr>"
    by (simp add: out)
  show sub: "set (rows out) \<subseteq> set ?P"
    using clean_sources(1) [OF assms(2)] .
  show d: "distinct (map (\<lambda>r. cell_of r ''gtin'') (rows out))"
    by (simp add: out distinct_keep_first)
  have e: "map (\<lambda>r. cell_of r ''gtin'') (rows out) = map Str (map gtin_key (rows out))"
    using sub passed_gtin_str [OF gtin] by (auto simp: subset_iff)
  from d e show "distinct (map gtin_key (rows out))"
    by (metis distinct_map)
  have range: "\<forall>i \<in> set ?idx. i < length ?P" and srt_eq: "srt = map (\<lambda>i. ?P ! i) ?idx"
    using srt by (auto simp: take_rows_def list_all_iff split: if_splits)
  have "map gtin_key srt = map (\<lambda>i. map gtin_key ?P ! i) ?idx"
    using range by (simp add: srt_eq)
  moreover have "sorted (map (\<lambda>i. map gtin_key ?P ! i) ?idx)"
    using assms(1) by (simp add: sorts_def)
  ultimately have "sorted (map gtin_key srt)"
    by simp
  then show "sorted (map gtin_key (rows out))"
    by (simp add: out keep_first_sorted)
qed

text \<open>
  A second application of \<^verbatim>\<open>clean\<close> keeps every row in its place and cleans it again.
\<close>

lemma clean_twice:
  assumes "sorts L" and "clean L df verbose = Inr (out, printed)"
  shows "\<exists>printed'. clean L out verbose' =
           Inr (\<lparr>columns = columns out,
                  rows = map (clean_row L (rows out) (columns df)) (rows out)\<rparr>,
                printed')"
proof -
  let ?g = "clean_row L (rows out) (columns df)"
  let ?ys = "rows out"
  note fp = first_pass [OF assms]
  have gtin: "''gtin'' \<in> set (columns df)"
    using clean_InrD(1) [OF assms(2)] .
  have cols: "columns out = out_columns (columns df)"
    using fp(1) by (metis dataframe.select_convs(1))
  have same: "cell_of (?g y) ''gtin'' = cell_of y ''gtin''" if y: "y \<in> set ?ys" for y
  proof -
    obtain raw where "y = clean_row L (rows df) (columns df) raw"
      using y fp(2) set_passed [of L df] by blast
    then show ?thesis
      by (simp add: clean_row_twice_text [OF gtin_in_schema(3) gtin])
  qed
  have "\<exists>printed'. clean L out verbose' =
          Inr (\<lparr>columns = out_columns (columns out), rows = map ?g ?ys\<rparr>, printed')"
  proof (rule clean_eval)
    show "''gtin'' \<in> set (columns out)"
      using gtin by (simp add: cols in_out_columns gtin_in_schema)
    show "passed L out = map ?g ?ys"
      using passed_again [OF gtin fp(2)] fp(1) by simp
    show "map gtin_key (map ?g ?ys) = map gtin_key ?ys"
      using same by (simp add: gtin_key_def)
    show "argsort L (map gtin_key ?ys) = [0 ..< length ?ys]"
      using argsort_sorted_distinct [OF assms(1) fp(5) fp(4)] by simp
    show "take_rows [0 ..< length ?ys] (map ?g ?ys) = Inr (map ?g ?ys)"
      by (simp add: take_rows_def list_all_iff map_nth [of "map ?g ?ys", simplified])
    have "map (\<lambda>r. cell_of r ''gtin'') (map ?g ?ys) = map (\<lambda>r. cell_of r ''gtin'') ?ys"
      using same by simp
    then have "distinct (map (\<lambda>r. cell_of r ''gtin'') (map ?g ?ys))"
      using fp(3) by (simp only:)
    then show "keep_first (\<lambda>r. cell_of r ''gtin'') [] (map ?g ?ys) = map ?g ?ys"
      by (rule keep_first_id) simp
  qed
  then show ?thesis
    by (simp add: cols out_columns_idem)
qed

lemma nutrient_cell_NumV: "\<exists>v. nutrient_cell L col x = NumV v"
  by (simp add: nutrient_cell_def to_numeric_cell_def fillna_def split: option.splits)

lemma nutrient_cell_read_back:
  "to_numeric L col (strip (rstrip ''^'' (num_str L v))) = Some v \<Longrightarrow>
   nutrient_cell L col (NumV v) = NumV v"
  by (simp add: nutrient_cell_def numeric_val_def to_numeric_cell_def fillna_def)

lemma clean_row_again:
  assumes rb: "\<And>c v. c \<in> set NUTRIENT_COLS \<Longrightarrow> cell_of (clean_row L rs cols raw) c = NumV v \<Longrightarrow>
                   to_numeric L (numeric_col L c rs') (strip (rstrip ''^'' (num_str L v))) = Some v"
  shows "(clean_row L rs' cols (clean_row L rs cols raw))(LABEL := None) =
         (clean_row L rs cols raw)(LABEL := None)"
proof (rule ext)
  fix c
  let ?y = "clean_row L rs cols raw"
  show "((clean_row L rs' cols ?y)(LABEL := None)) c = (?y(LABEL := None)) c"
  proof (cases "c = LABEL")
    case True
    then show ?thesis by simp
  next
    case False
    consider (absent) "c \<notin> set cols" | (str) "c \<in> set cols" "c \<in> set (ID_COL @ TEXT_COLS)"
      | (nut) "c \<in> set cols" "c \<notin> set (ID_COL @ TEXT_COLS)" "c \<in> set NUTRIENT_COLS"
      | (bool) "c \<in> set cols" "c \<notin> set (ID_COL @ TEXT_COLS)" "c \<notin> set NUTRIENT_COLS"
          "c \<in> set bool_cols"
      | (other) "c \<in> set cols" "c \<notin> set (ID_COL @ TEXT_COLS)" "c \<notin> set NUTRIENT_COLS"
          "c \<notin> set bool_cols"
      by blast
    then show ?thesis
    proof cases
      case absent
      with False show ?thesis by (simp add: clean_row_def)
    next
      case str
      have "cell_of ?y c = astype_string L (cell_of raw c)"
        by (rule clean_row_text [OF str(2,1)])
      with False str show ?thesis
        by (simp add: clean_row_def astype_string_idem del: set_append)
    next
      case nut
      have y: "cell_of ?y c = nutrient_cell L (numeric_col L c rs) (cell_of raw c)"
        by (rule clean_row_nutrient [OF nut(3,1)])
      obtain v where v: "nutrient_cell L (numeric_col L c rs) (cell_of raw c) = NumV v"
        using nutrient_cell_NumV [of L "numeric_col L c rs" "cell_of raw c"] by blast
      have "nutrient_cell L (numeric_col L c rs') (NumV v) = NumV v"
        using rb [OF nut(3)] y v by (intro nutrient_cell_read_back) simp
      with False nut y v show ?thesis
        by (simp add: clean_row_def del: set_append)
    next
      case bool
      have "cell_of ?y c = bool_cell L (cell_of raw c)"
        by (rule clean_row_bool [OF bool(4,1)])
      with False bool show ?thesis
        by (simp add: clean_row_def bool_cell_idem del: set_append)
    next
      case other
      with False show ?thesis by (simp add: clean_row_def del: set_append)
    qed
  qed
qed

lemma py_sorts: "sorts py"
  by (simp add: sorts_def py_def stable_argsort_def)

lemma clean_row_absent:
  "c \<notin> set cols \<Longrightarrow> c \<noteq> LABEL \<Longrightarrow> cell_of (clean_row L rs cols r) c = NaN"
  by (simp add: clean_row_def cell_of_def)

lemma once_clean: "\<exists>printed. clean py once verbose = Inr (once_out, printed)"
proof -
  have "passed py once =
          [clean_row py (rows once) demo_cols (demo_row (Str ''1'') (Str ''milk'') (Str ''50^'') (Str ''0''))]"
    by (simp add: passed_def once_def demo_cells demo_row_cells demo_in_cols
        astype_string_def nonempty_text_def string_defs)
  then show ?thesis
    using clean_one_row [of once py _ verbose] py_argsort_one
    by (simp add: once_def demo_in_cols once_out_def demo_out_columns)
qed

lemma str_int_50: "str_int 50 = ''50''"
  by (simp add: str_int_def str_nat.simps)

lemma once_values:
  "to_lists once_out = [[Str ''1'', Str ''milk'', NumV 50, BoolV False, IntV 1]]"
  apply (simp add: to_lists_def once_out_def demo_cells [unfolded LABEL_def] demo_row_cells)
  apply (simp add: astype_string_def nutrient_cell_def numeric_val_def to_numeric_cell_def
      fillna_def bool_cell_def bool_map_def has_caret_def string_defs py_def parse_int_def
      digit_val_def)
  done

lemma once_cells:
  "cell_of (clean_row py (rows once) demo_cols (demo_row (Str ''1'') (Str ''milk'') (Str ''50^'') (Str ''0'')))
     ''gtin'' = Str ''1''"
  "cell_of (clean_row py (rows once) demo_cols (demo_row (Str ''1'') (Str ''milk'') (Str ''50^'') (Str ''0'')))
     ''ingredients_text'' = Str ''milk''"
  "cell_of (clean_row py (rows once) demo_cols (demo_row (Str ''1'') (Str ''milk'') (Str ''50^'') (Str ''0'')))
     ''calories'' = NumV 50"
  "cell_of (clean_row py (rows once) demo_cols (demo_row (Str ''1'') (Str ''milk'') (Str ''50^'') (Str ''0'')))
     ''is_seed_oil'' = BoolV False"
  using once_values by (simp_all add: to_lists_def once_out_def)

lemma once_reads_back: "reads_back py once_out"
proof -
  let ?y = "clean_row py (rows once) demo_cols (demo_row (Str ''1'') (Str ''milk'') (Str ''50^'') (Str ''0''))"
  have "to_numeric py col (strip (rstrip ''^'' (num_str py v))) = Some v"
    if c: "c \<in> set NUTRIENT_COLS" and v: "cell_of ?y c = NumV v" for c v col
  proof (cases "c = ''calories''")
    case True
    then have "v = 50"
      using v once_cells(3) by simp
    then show ?thesis
      by (simp add: py_def str_int_50 string_defs parse_int_def digit_val_def)
  next
    case False
    have "c \<notin> set (ID_COL @ TEXT_COLS)" "c \<notin> set bool_cols" "c \<noteq> LABEL"
      using c schema_disjoint(1,3,6) by auto
    then have "c \<notin> set demo_cols"
      using False demo_schema(1,2,4) by (auto simp: demo_cols_def)
    then have "cell_of ?y c = NaN"
      using \<open>c \<noteq> LABEL\<close> by (rule clean_row_absent)
    with v show ?thesis by simp
  qed
  then show ?thesis
    by (simp add: reads_back_def once_out_def)
qed

section \<open>Sorting and the first row of a key\<close>

lemma npy_argsort_crowd:
  "npy_argsort (''1'' # replicate 17 ''5'') =
     [0, 15, 14, 13, 12, 11, 10, 9, 8, 7, 6, 5, 4, 3, 2, 1, 16, 17]"
  by code_simp

lemma keep_first_find:
  "r \<in> set (keep_first key seen xs) \<Longrightarrow> find (\<lambda>x. key x = key r) xs = Some r"
proof (induction xs arbitrary: seen)
  case Nil
  then show ?case by simp
next
  case (Cons x xs)
  have notin: "key r \<notin> set s" if "r \<in> set (keep_first key s xs)" for s
  proof -
    have "key r \<in> set (map key (keep_first key s xs))"
      using that by simp
    then show ?thesis
      by (simp only: keys_keep_first) simp
  qed
  show ?case
  proof (cases "key x \<in> set seen")
    case True
    with Cons.prems have r: "r \<in> set (keep_first key seen xs)"
      by simp
    then have "key x \<noteq> key r"
      using notin True by auto
    with Cons.IH [OF r] show ?thesis by simp
  next
    case False
    with Cons.prems consider "r = x" | "r \<in> set (keep_first key (key x # seen) xs)"
      by auto
    then show ?thesis
    proof cases
      case 1
      then show ?thesis by simp
    next
      case 2
      then have "key x \<noteq> key r"
        using notin by fastforce
      with Cons.IH [OF 2] show ?thesis by simp
    qed
  qed
qed

lemma find_filter: "find Q xs = (case filter Q xs of [] \<Rightarrow> None | x # _ \<Rightarrow> Some x)"
  by (induction xs) auto

lemma insort_key_take:
  assumes "a < length xs" and "\<forall>j \<in> set js. j < length xs"
  shows "map (\<lambda>i. xs ! i) (insort_key (\<lambda>i. map f xs ! i) a js) =
         insort_key f (xs ! a) (map (\<lambda>i. xs ! i) js)"
  using assms by (induction js) auto

lemma sort_key_take:
  assumes "\<forall>j \<in> set js. j < length xs"
  shows "map (\<lambda>i. xs ! i) (sort_key (\<lambda>i. map f xs ! i) js) = sort_key f (map (\<lambda>i. xs ! i) js)"
  using assms
proof (induction js)
  case Nil
  show ?case by simp
next
  case (Cons a js)
  have "\<forall>j \<in> set (sort_key (\<lambda>i. map f xs ! i) js). j < length xs"
    using Cons.prems by simp
  with Cons show ?case
    by (simp add: insort_key_take)
qed

text \<open>Taking the rows at the positions of a stable argsort is a stable sort of the rows.\<close>

lemma take_stable_argsort:
  "map (\<lambda>i. xs ! i) (stable_argsort (map f xs)) = sort_key f xs"
proof -
  have "map (\<lambda>i. xs ! i) (sort_key (\<lambda>i. map f xs ! i) [0 ..< length xs]) =
          sort_key f (map (\<lambda>i. xs ! i) [0 ..< length xs])"
    by (rule sort_key_take) simp
  then show ?thesis
    by (simp add: stable_argsort_def map_nth)
qed

lemma crowd_cells:
  "cell_of (clean_row L rs demo_cols (crowd_row i)) ''gtin'' = Str (if i = 0 then ''1'' else ''5'')"
  "cell_of (clean_row L rs demo_cols (crowd_row i)) ''ingredients_text'' = Str ''x''"
  "cell_of (clean_row L rs demo_cols (crowd_row i)) ''calories'' =
     nutrient_cell L (numeric_col L ''calories'' rs) (IntV (int i))"
  "cell_of (clean_row L rs demo_cols (crowd_row i)) ''is_seed_oil'' = bool_cell L (Str ''0'')"
  "cell_of (clean_row L rs demo_cols (crowd_row i)) ''label_is_anomaly'' =
     IntV (if has_caret L (IntV (int i)) then 1 else 0)"
  by (simp_all add: demo_cells [unfolded LABEL_def] crowd_row_def demo_row_cells astype_string_def
      has_caret_def string_defs)

lemma crowd_passed:
  "passed L crowd = map (\<lambda>i. clean_row L (rows crowd) demo_cols (crowd_row i)) [0 ..< 18]"
proof -
  have "passed L crowd = filter (\<lambda>r. True) (map (\<lambda>i. clean_row L (rows crowd) demo_cols (crowd_row i)) [0 ..< 18])"
    unfolding passed_def crowd_def
    by (simp add: filter_map comp_def crowd_cells demo_in_cols nonempty_text_def string_defs
        del: upt.simps)
  then show ?thesis by simp
qed

lemma crowd_keys: "map gtin_key (passed L crowd) = ''1'' # replicate 17 ''5''"
proof -
  have "map gtin_key (passed L crowd) = map (\<lambda>i. if i = 0 then ''1'' else ''5'') [0 ..< 18]"
    by (simp add: crowd_passed gtin_key_def crowd_cells str_key_def del: upt.simps)
  also have "\<dots> = ''1'' # replicate 17 ''5''"
    by code_simp
  finally show ?thesis .
qed

lemma np_argsort: "argsort np = npy_argsort"
  by (simp add: np_def)

lemma str_int_small: "str_int 0 = ''0''" "str_int 1 = ''1''" "str_int 15 = ''15''"
  by (simp_all add: str_int_def str_nat.simps)

text \<open>
  \<^verbatim>\<open>clean\<close> on the table \<open>crowd\<close> with the sort pandas runs by default: the row kept
  for the identifier \<open>5\<close> is the one from position 15, and the first row with that
  identifier that passed the filters is the one from position 1.
\<close>

lemma crowd_clean:
  "\<exists>out printed first.
     clean np crowd True = Inr (out, printed) \<and>
     argsort np (map gtin_key (passed np crowd)) =
       [0, 15, 14, 13, 12, 11, 10, 9, 8, 7, 6, 5, 4, 3, 2, 1, 16, 17] \<and>
     to_lists out =
       [[Str ''1'', Str ''x'', NumV 0, BoolV False, IntV 0],
        [Str ''5'', Str ''x'', NumV 15, BoolV False, IntV 0]] \<and>
     find (\<lambda>r. cell_of r ''gtin'' = Str ''5'') (passed np crowd) = Some first \<and>
     cell_of first ''calories'' = NumV 1"
proof -
  let ?g = "\<lambda>i. clean_row np (rows crowd) demo_cols (crowd_row i)"
  let ?out = "\<lparr>columns = out_columns (columns crowd), rows = [?g 0, ?g 15]\<rparr>"
  have "\<exists>printed. clean np crowd True = Inr (?out, printed)"
  proof (rule clean_eval)
    show "''gtin'' \<in> set (columns crowd)"
      by (simp add: crowd_def demo_in_cols)
    show "passed np crowd = map ?g [0 ..< 18]"
      by (rule crowd_passed)
    show "map gtin_key (map ?g [0 ..< 18]) = ''1'' # replicate 17 ''5''"
      using crowd_keys [of np] by (simp only: crowd_passed)
    show "argsort np (''1'' # replicate 17 ''5'') =
            [0, 15, 14, 13, 12, 11, 10, 9, 8, 7, 6, 5, 4, 3, 2, 1, 16, 17]"
      by (simp only: np_argsort npy_argsort_crowd)
    show "take_rows [0, 15, 14, 13, 12, 11, 10, 9, 8, 7, 6, 5, 4, 3, 2, 1, 16, 17] (map ?g [0 ..< 18]) =
            Inr (map ?g [0, 15, 14, 13, 12, 11, 10, 9, 8, 7, 6, 5, 4, 3, 2, 1, 16, 17])"
      by (simp add: take_rows_def numeral_2_eq_2 [symmetric] del: upt.simps)
    show "keep_first (\<lambda>r. cell_of r ''gtin'') []
            (map ?g [0, 15, 14, 13, 12, 11, 10, 9, 8, 7, 6, 5, 4, 3, 2, 1, 16, 17]) = [?g 0, ?g 15]"
      by (simp add: crowd_cells)
  qed
  then obtain printed where eq: "clean np crowd True = Inr (?out, printed)"
    by blast
  have idx: "argsort np (map gtin_key (passed np crowd)) =
      [0, 15, 14, 13, 12, 11, 10, 9, 8, 7, 6, 5, 4, 3, 2, 1, 16, 17]"
    by (simp only: crowd_keys np_argsort npy_argsort_crowd)
  have vals: "to_lists ?out =
       [[Str ''1'', Str ''x'', NumV 0, BoolV False, IntV 0],
        [Str ''5'', Str ''x'', NumV 15, BoolV False, IntV 0]]"
    apply (simp add: to_lists_def crowd_def demo_out_columns crowd_cells)
    apply (simp add: nutrient_cell_def numeric_val_def to_numeric_cell_def fillna_def
        bool_cell_def bool_map_def has_caret_def string_defs np_def py_def parse_int_def
        digit_val_def str_int_small)
    done
  have "[0 ..< 18] = (0 :: nat) # 1 # [2 ..< 18]"
    by code_simp
  then have "passed np crowd = ?g 0 # ?g 1 # map ?g [2 ..< 18]"
    by (simp only: crowd_passed list.map)
  then have first: "find (\<lambda>r. cell_of r ''gtin'' = Str ''5'') (passed np crowd) = Some (?g 1)"
    by (simp add: crowd_cells del: upt.simps)
  have cal: "cell_of (?g 1) ''calories'' = NumV 1"
    by (simp add: crowd_cells nutrient_cell_def numeric_val_def to_numeric_cell_def fillna_def
        string_defs np_def py_def parse_int_def digit_val_def str_int_small)
  show ?thesis
    by (intro exI [of _ ?out] exI [of _ printed] exI [of _ "?g 1"] conjI) (fact eq idx vals first cal)+
qed

text \<open>
  What the two lines do for any sort: no two rows of the result share an identifier, and
  the row kept for an identifier is the first one with it in the order in which
  \<^verbatim>\<open>sort_values("gtin")\<close> leaves the rows that passed the filters. Where the indexer is
  that of a stable sort, that row is the first occurrence of the identifier in input
  order, and every identifier of a passed row keeps a row.
\<close>

lemma first_of_sorted:
  assumes "clean L df verbose = Inr (out, printed)"
  shows "distinct (map (\<lambda>r. cell_of r ''gtin'') (rows out)) \<and>
         (\<exists>srt. take_rows (argsort L (map gtin_key (passed L df))) (passed L df) = Inr srt \<and>
                rows out = keep_first (\<lambda>r. cell_of r ''gtin'') [] srt \<and>
                (\<forall>r \<in> set (rows out).
                   find (\<lambda>x. cell_of x ''gtin'' = cell_of r ''gtin'') srt = Some r)) \<and>
         (argsort L (map gtin_key (passed L df)) = stable_argsort (map gtin_key (passed L df)) \<longrightarrow>
            rows out = keep_first (\<lambda>r. cell_of r ''gtin'') [] (sort_key gtin_key (passed L df)) \<and>
            set (map (\<lambda>r. cell_of r ''gtin'') (rows out)) =
              set (map (\<lambda>r. cell_of r ''gtin'') (passed L df)) \<and>
            (\<forall>r \<in> set (rows out).
               find (\<lambda>x. cell_of x ''gtin'' = cell_of r ''gtin'') (passed L df) = Some r))"
proof -
  let ?P = "passed L df"
  let ?gc = "\<lambda>r. cell_of r ''gtin''"
  have gtin: "''gtin'' \<in> set (columns df)"
    using clean_InrD(1) [OF assms] .
  obtain srt where srt: "take_rows (argsort L (map gtin_key ?P)) ?P = Inr srt"
    and out: "out = \<lparr>columns = out_columns (columns df), rows = keep_first ?gc [] srt\<rparr>"
    using clean_InrD(2) [OF assms] by blast
  have rows: "rows out = keep_first ?gc [] srt"
    by (simp add: out)
  have d: "distinct (map ?gc (rows out))"
    by (simp add: rows distinct_keep_first)
  have first: "\<forall>r \<in> set (rows out). find (\<lambda>x. ?gc x = ?gc r) srt = Some r"
    using keep_first_find [of _ ?gc "[]" srt] by (simp add: rows)
  have stable: "rows out = keep_first ?gc [] (sort_key gtin_key ?P) \<and>
      set (map ?gc (rows out)) = set (map ?gc ?P) \<and>
      (\<forall>r \<in> set (rows out). find (\<lambda>x. ?gc x = ?gc r) ?P = Some r)"
    if st: "argsort L (map gtin_key ?P) = stable_argsort (map gtin_key ?P)"
  proof -
    have "srt = map (\<lambda>i. ?P ! i) (stable_argsort (map gtin_key ?P))"
      using srt st by (auto simp: take_rows_def split: if_splits)
    then have srt_eq: "srt = sort_key gtin_key ?P"
      by (simp only: take_stable_argsort)
    have keys: "set (map ?gc (rows out)) = set (map ?gc ?P)"
      by (simp only: rows keys_keep_first srt_eq) simp
    have "find (\<lambda>x. ?gc x = ?gc r) ?P = Some r" if r: "r \<in> set (rows out)" for r
    proof -
      have rP: "r \<in> set ?P"
        using r clean_sources(1) [OF assms] by blast
      have key: "?gc x = ?gc r \<longleftrightarrow> gtin_key x = gtin_key r" if "x \<in> set ?P" for x
        using passed_gtin_str [OF gtin that] passed_gtin_str [OF gtin rP] by simp
      have "filter (\<lambda>x. ?gc x = ?gc r) (sort_key gtin_key ?P) =
              filter (\<lambda>x. gtin_key x = gtin_key r) (sort_key gtin_key ?P)"
        using key by (intro filter_cong) simp_all
      also have "\<dots> = filter (\<lambda>x. gtin_key x = gtin_key r) ?P"
        by (rule sort_key_stable)
      also have "\<dots> = filter (\<lambda>x. ?gc x = ?gc r) ?P"
        using key by (intro filter_cong) simp_all
      finally have "find (\<lambda>x. ?gc x = ?gc r) ?P = find (\<lambda>x. ?gc x = ?gc r) (sort_key gtin_key ?P)"
        by (simp only: find_filter)
      then show ?thesis
        using first r by (simp add: srt_eq)
    qed
    then show ?thesis
      using rows srt_eq keys by blast
  qed
  show ?thesis
    using d srt rows first stable by blast
qed

section \<open>The claims\<close>

text \<open>
  Claim C1. Every row of the result is the cleaned form of a row of the input, and its
  \<open>label_is_anomaly\<close> is 1 if and only if one of that raw row's Text, Nutrient or Tag
  cells, taken as its string and trimmed of surrounding whitespace, ends with the caret
  \<^verbatim>\<open>^\<close>; otherwise it is 0.
\<close>

theorem label_iff_caret:
  assumes "clean L df verbose = Inr (out, printed)"
  shows "\<exists>src. set src \<subseteq> set (rows df) \<and> rows out = map (clean_row L (rows df) (columns df)) src \<and>
           list_all2
             (\<lambda>raw r. cell_of r LABEL =
                IntV (if (\<exists>c \<in> set (TEXT_COLS @ NUTRIENT_COLS @ TAG_COLS).
                            c \<in> set (columns df) \<and>
                            endswith (strip (astype_str L (cell_of raw c))) ''^'')
                      then 1 else 0))
             src (rows out)"
proof -
  obtain src where src: "set src \<subseteq> set (rows df)" "rows out = map (clean_row L (rows df) (columns df)) src"
    using clean_sources(2) [OF assms] by blast
  have "cell_of (clean_row L (rows df) (columns df) raw) LABEL =
          IntV (if (\<exists>c \<in> set (TEXT_COLS @ NUTRIENT_COLS @ TAG_COLS).
                      c \<in> set (columns df) \<and>
                      endswith (strip (astype_str L (cell_of raw c))) ''^'')
                then 1 else 0)" for raw
    by (simp add: clean_row_label any_caret_def cols_with_carets_def has_caret_def)
  then show ?thesis
    using src by (auto simp: list_all2_map_same)
qed

text \<open>
  On the example table the two rows of the result have the labels 1 and 0.
\<close>

theorem label_iff_caret_witness:
  "\<exists>out printed. clean py demo True = Inr (out, printed) \<and>
     map (\<lambda>r. cell_of r LABEL) (rows out) = [IntV 1, IntV 0] \<and>
     (\<exists>src. set src \<subseteq> set (rows demo) \<and> rows out = map (clean_row py (rows demo) (columns demo)) src \<and>
        list_all2
          (\<lambda>raw r. cell_of r LABEL =
             IntV (if (\<exists>c \<in> set (TEXT_COLS @ NUTRIENT_COLS @ TAG_COLS).
                         c \<in> set (columns demo) \<and>
                         endswith (strip (astype_str py (cell_of raw c))) ''^'')
                   then 1 else 0))
          src (rows out))"
proof -
  obtain printed where eq: "clean py demo True = Inr (demo_out, printed)"
    using demo_clean by blast
  have labels: "map (\<lambda>r. cell_of r LABEL) (rows demo_out) = [IntV 1, IntV 0]"
    using demo_values by (simp add: to_lists_def demo_out_def LABEL_def)
  note main = label_iff_caret [OF eq]
  show ?thesis
    by (intro exI [of _ demo_out] exI [of _ printed] conjI) (fact eq labels main)+
qed

text \<open>
  Claim C2, as amended. In every row of the result and every Nutrient column of the
  input, the value is numeric and never missing: it is either a reading, which may be
  negative, or the sentinel \<open>-1\<close>. A reading is what \<^verbatim>\<open>pd.to_numeric\<close> reads from the
  caret-stripped, whitespace-trimmed string \<open>numeric_val\<close> of the raw cell, as an element
  of the column of these strings.
\<close>

theorem nutrient_parse_or_sentinel:
  assumes "clean L df verbose = Inr (out, printed)"
    and "c \<in> set NUTRIENT_COLS" and "c \<in> set (columns df)"
  shows "\<exists>src. set src \<subseteq> set (rows df) \<and> rows out = map (clean_row L (rows df) (columns df)) src \<and>
           list_all2
             (\<lambda>raw r. \<not> isna (cell_of r c) \<and>
                (cell_of r c = NumV (minus_one L) \<or>
                 (\<exists>v. cell_of r c = NumV v \<and>
                      to_numeric L (numeric_col L c (rows df)) (numeric_val L (cell_of raw c)) =
                        Some v)))
             src (rows out)"
proof -
  let ?g = "clean_row L (rows df) (columns df)"
  obtain src where src: "set src \<subseteq> set (rows df)" "rows out = map ?g src"
    using clean_sources(2) [OF assms(1)] by blast
  have cell: "cell_of (?g raw) c =
      (case to_numeric L (numeric_col L c (rows df)) (numeric_val L (cell_of raw c)) of
         Some v \<Rightarrow> NumV v
       | None \<Rightarrow> NumV (minus_one L))" for raw
    by (simp add: clean_row_nutrient [OF assms(2,3)] nutrient_cell_def to_numeric_cell_def
        fillna_def split: option.splits)
  have "\<not> isna (cell_of (?g raw) c) \<and>
        (cell_of (?g raw) c = NumV (minus_one L) \<or>
         (\<exists>v. cell_of (?g raw) c = NumV v \<and>
              to_numeric L (numeric_col L c (rows df)) (numeric_val L (cell_of raw c)) = Some v))"
    for raw
    by (cases "to_numeric L (numeric_col L c (rows df)) (numeric_val L (cell_of raw c))")
      (simp_all add: cell)
  then show ?thesis
    using src by (auto simp: list_all2_map_same)
qed

text \<open>
  On the example table the \<open>calories\<close> of the result are 50 and \<open>-5\<close>.
\<close>

theorem nutrient_parse_or_sentinel_witness:
  "\<exists>out printed. clean py demo True = Inr (out, printed) \<and>
     ''calories'' \<in> set NUTRIENT_COLS \<and> ''calories'' \<in> set (columns demo) \<and>
     map (\<lambda>r. cell_of r ''calories'') (rows out) = [NumV 50, NumV (- 5)] \<and>
     (\<exists>src. set src \<subseteq> set (rows demo) \<and> rows out = map (clean_row py (rows demo) (columns demo)) src \<and>
        list_all2
          (\<lambda>raw r. \<not> isna (cell_of r ''calories'') \<and>
             (cell_of r ''calories'' = NumV (minus_one py) \<or>
              (\<exists>v. cell_of r ''calories'' = NumV v \<and>
                   to_numeric py (numeric_col py ''calories'' (rows demo))
                     (numeric_val py (cell_of raw ''calories'')) = Some v)))
          src (rows out))"
proof -
  obtain printed where eq: "clean py demo True = Inr (demo_out, printed)"
    using demo_clean by blast
  have mem: "''calories'' \<in> set NUTRIENT_COLS" "''calories'' \<in> set (columns demo)"
    using demo_schema(3) demo_in_cols(3) by (simp_all add: demo_def)
  have vals: "map (\<lambda>r. cell_of r ''calories'') (rows demo_out) = [NumV 50, NumV (- 5)]"
    using demo_values by (simp add: to_lists_def demo_out_def)
  note main = nutrient_parse_or_sentinel [OF eq mem]
  show ?thesis
    by (intro exI [of _ demo_out] exI [of _ printed] conjI) (fact eq mem vals main)+
qed

text \<open>
  Claim C2 as stated fails: the raw cell \<^verbatim>\<open>"-5"\<close> of the example table comes out as the
  number \<open>-5\<close>, which is neither a non-negative reading nor the sentinel.
\<close>

theorem nutrient_negative_counterexample:
  "\<exists>out printed. clean py demo True = Inr (out, printed) \<and>
     to_lists out =
       [[Str ''123'', Str ''milk^'', NumV 50, BoolV False, IntV 1],
        [Str ''7'', Str ''oil'', NumV (- 5), BoolV True, IntV 0]] \<and>
     (\<exists>r \<in> set (rows out). \<exists>v. cell_of r ''calories'' = NumV v \<and> v < 0 \<and> v \<noteq> minus_one py)"
proof -
  obtain printed where eq: "clean py demo True = Inr (demo_out, printed)"
    using demo_clean by blast
  have "cell_of (rows demo_out ! 1) ''calories'' = NumV (- 5)"
    using demo_values by (simp add: to_lists_def demo_out_def)
  moreover have "rows demo_out ! 1 \<in> set (rows demo_out)"
    by (simp add: demo_out_def)
  ultimately have "\<exists>r \<in> set (rows demo_out). \<exists>v. cell_of r ''calories'' = NumV v \<and> v < 0 \<and> v \<noteq> minus_one py"
    by (intro bexI [of _ "rows demo_out ! 1"] exI [of _ "- 5"]) (simp_all add: py_def)
  then show ?thesis
    using eq demo_values by (intro exI [of _ demo_out] exI [of _ printed] conjI)
qed

text \<open>
  Claim C3: the code breaks it on the table \<open>crowd\<close>, whose first two rows have the
  identifiers \<open>1\<close> and \<open>5\<close> and whose other rows have the identifier \<open>5\<close> too. The
  comment above the two lines says \<^verbatim>\<open>keep first occurrence\<close>, but
  \<^verbatim>\<open>sort_values("gtin")\<close> is left at its default kind, which is not stable. Its indexer
  puts position 15 first among the rows with the identifier \<open>5\<close>, and the row kept for
  that identifier is the one from position 15 of the input, with \<open>calories\<close> 15, not
  the one from position 1.
\<close>

theorem default_sort_keeps_later_duplicate:
  "take 2 (to_lists crowd) =
     [[Str ''1'', Str ''x'', IntV 0, Str ''0''], [Str ''5'', Str ''x'', IntV 1, Str ''0'']] \<and>
   map gtin_key (rows crowd) = ''1'' # replicate 17 ''5'' \<and>
   argsort np (''1'' # replicate 17 ''5'') =
     [0, 15, 14, 13, 12, 11, 10, 9, 8, 7, 6, 5, 4, 3, 2, 1, 16, 17] \<and>
   map_sum id (to_lists \<circ> fst) (clean np crowd True) =
     Inr [[Str ''1'', Str ''x'', NumV 0, BoolV False, IntV 0],
          [Str ''5'', Str ''x'', NumV 15, BoolV False, IntV 0]]"
proof (intro conjI)
  have split: "[0 ..< 18] = (0 :: nat) # 1 # [2 ..< 18]"
    by code_simp
  have "to_lists crowd = map (\<lambda>i. [Str (if i = 0 then ''1'' else ''5''), Str ''x'', IntV (int i), Str ''0''])
          [0 ..< 18]"
    by (simp add: to_lists_def crowd_def crowd_row_def demo_row_cells demo_cols_def
        del: upt.simps)
  then show "take 2 (to_lists crowd) =
     [[Str ''1'', Str ''x'', IntV 0, Str ''0''], [Str ''5'', Str ''x'', IntV 1, Str ''0'']]"
    by (simp only: split list.map) simp
  have "map gtin_key (rows crowd) = map (\<lambda>i. if i = 0 then ''1'' else ''5'') [0 ..< 18]"
    by (simp add: crowd_def gtin_key_def crowd_row_def demo_row_cells str_key_def
        del: upt.simps)
  also have "\<dots> = ''1'' # replicate 17 ''5''"
    by code_simp
  finally show "map gtin_key (rows crowd) = ''1'' # replicate 17 ''5''" .
  show "argsort np (''1'' # replicate 17 ''5'') =
     [0, 15, 14, 13, 12, 11, 10, 9, 8, 7, 6, 5, 4, 3, 2, 1, 16, 17]"
    by (simp only: np_argsort npy_argsort_crowd)
  obtain out printed where "clean np crowd True = Inr (out, printed)"
    and "to_lists out =
       [[Str ''1'', Str ''x'', NumV 0, BoolV False, IntV 0],
        [Str ''5'', Str ''x'', NumV 15, BoolV False, IntV 0]]"
    using crowd_clean by blast
  then show "map_sum id (to_lists \<circ> fst) (clean np crowd True) =
     Inr [[Str ''1'', Str ''x'', NumV 0, BoolV False, IntV 0],
          [Str ''5'', Str ''x'', NumV 15, BoolV False, IntV 0]]"
    by simp
qed

text \<open>
  Claim C4, as amended. In every row of the result the identifier is a string, not a
  missing value; and if the input has an \<open>ingredients_text\<close> column, the
  \<open>ingredients_text\<close> of the row is a string that is not empty after trimming
  whitespace. The identifier may be the empty string, and without an
  \<open>ingredients_text\<close> column the text filter is skipped.
\<close>

theorem no_missing_gtin_or_blank_text:
  assumes "clean L df verbose = Inr (out, printed)" and "r \<in> set (rows out)"
  shows "(\<exists>s. cell_of r ''gtin'' = Str s) \<and>
         (''ingredients_text'' \<in> set (columns df) \<longrightarrow>
            (\<exists>s. cell_of r ''ingredients_text'' = Str s \<and> strip s \<noteq> []))"
proof -
  have gtin: "''gtin'' \<in> set (columns df)"
    using clean_InrD(1) [OF assms(1)] .
  have "r \<in> set (passed L df)"
    using clean_sources(1) [OF assms(1)] assms(2) by blast
  then obtain raw where r: "r = clean_row L (rows df) (columns df) raw"
    and notna: "\<not> isna (cell_of r ''gtin'')"
    and ingr: "''ingredients_text'' \<in> set (columns df) \<Longrightarrow>
                 nonempty_text L (cell_of r ''ingredients_text'')"
    by (auto simp: passed_def)
  have "cell_of r ''gtin'' = astype_string L (cell_of raw ''gtin'')"
    unfolding r by (rule clean_row_text [OF gtin_in_schema(3) gtin])
  then have g: "\<exists>s. cell_of r ''gtin'' = Str s"
    using notna astype_string_cases [of L "cell_of raw ''gtin''"] by auto
  have i: "\<exists>s. cell_of r ''ingredients_text'' = Str s \<and> strip s \<noteq> []"
    if ing: "''ingredients_text'' \<in> set (columns df)"
  proof -
    have "cell_of r ''ingredients_text'' = astype_string L (cell_of raw ''ingredients_text'')"
      unfolding r by (rule clean_row_text [OF ingredients_in_schema(3) ing])
    then show ?thesis
      using ingr [OF ing] astype_string_cases [of L "cell_of raw ''ingredients_text''"]
      by (auto simp: nonempty_text_def)
  qed
  show ?thesis
    using g i by blast
qed

text \<open>
  On the example table the first row of the result has the identifier \<open>123\<close> and the
  text \<open>milk^\<close>.
\<close>

theorem no_missing_gtin_or_blank_text_witness:
  "\<exists>out printed. clean py demo True = Inr (out, printed) \<and>
     hd (rows out) \<in> set (rows out) \<and> ''ingredients_text'' \<in> set (columns demo) \<and>
     cell_of (hd (rows out)) ''gtin'' = Str ''123'' \<and>
     cell_of (hd (rows out)) ''ingredients_text'' = Str ''milk^'' \<and>
     (\<exists>s. cell_of (hd (rows out)) ''gtin'' = Str s) \<and>
     (\<exists>s. cell_of (hd (rows out)) ''ingredients_text'' = Str s \<and> strip s \<noteq> [])"
proof -
  obtain printed where eq: "clean py demo True = Inr (demo_out, printed)"
    using demo_clean by blast
  have mem: "hd (rows demo_out) \<in> set (rows demo_out)"
    by (simp add: demo_out_def)
  have ing: "''ingredients_text'' \<in> set (columns demo)"
    by (simp add: demo_def demo_in_cols)
  have vals: "cell_of (hd (rows demo_out)) ''gtin'' = Str ''123''"
    "cell_of (hd (rows demo_out)) ''ingredients_text'' = Str ''milk^''"
    using demo_values by (simp_all add: to_lists_def demo_out_def)
  from no_missing_gtin_or_blank_text [OF eq mem] ing
  have main: "\<exists>s. cell_of (hd (rows demo_out)) ''gtin'' = Str s"
    "\<exists>s. cell_of (hd (rows demo_out)) ''ingredients_text'' = Str s \<and> strip s \<noteq> []"
    by blast+
  show ?thesis
    by (intro exI [of _ demo_out] exI [of _ printed] conjI) (fact eq mem ing vals main)+
qed

text \<open>
  Claim C4 as stated fails: a row whose identifier is the empty string is kept.
\<close>

theorem empty_gtin_counterexample:
  "\<exists>out printed. clean py blank_gtin True = Inr (out, printed) \<and>
     to_lists out = [[Str [], Str ''x'', NumV 1, BoolV False, IntV 0]]"
proof -
  let ?r = "clean_row py (rows blank_gtin) demo_cols (demo_row (Str []) (Str ''x'') (Str ''1'') (Str ''0''))"
  obtain printed where eq: "clean py blank_gtin True =
      Inr (\<lparr>columns = out_columns demo_cols, rows = [?r]\<rparr>, printed)"
    using blank_gtin_clean by blast
  have "to_lists \<lparr>columns = out_columns demo_cols, rows = [?r]\<rparr> =
          [[Str [], Str ''x'', NumV 1, BoolV False, IntV 0]]"
    apply (simp add: to_lists_def demo_out_columns demo_cells [unfolded LABEL_def] demo_row_cells)
    apply (simp add: astype_string_def nutrient_cell_def numeric_val_def to_numeric_cell_def
        fillna_def bool_cell_def bool_map_def has_caret_def string_defs py_def parse_int_def
        digit_val_def)
    done
  with eq show ?thesis
    by (intro exI conjI)
qed

text \<open>
  Claim C5, as amended. Where \<^verbatim>\<open>sort_values\<close> sorts and \<^verbatim>\<open>pd.to_numeric\<close> reads the
  numbers of the cleaned Nutrient columns back from their strings, \<^verbatim>\<open>clean\<close> applied to
  its own result raises nothing, returns the same columns and as many rows, and every row
  is in its place with every cell but \<open>label_is_anomaly\<close> unchanged.
\<close>

theorem second_pass_keeps_all_but_label:
  assumes "sorts L" and "clean L df verbose = Inr (out, printed)" and "reads_back L out"
  shows "\<exists>out' printed'. clean L out verbose' = Inr (out', printed') \<and>
           columns out' = columns out \<and>
           length (rows out') = length (rows out) \<and>
           map (\<lambda>r. r(LABEL := None)) (rows out') = map (\<lambda>r. r(LABEL := None)) (rows out)"
proof -
  let ?f = "clean_row L (rows df) (columns df)"
  let ?g = "clean_row L (rows out) (columns df)"
  let ?out' = "\<lparr>columns = columns out, rows = map ?g (rows out)\<rparr>"
  obtain printed' where eq: "clean L out verbose' = Inr (?out', printed')"
    using clean_twice [OF assms(1,2)] by blast
  have "(?g y)(LABEL := None) = y(LABEL := None)" if y: "y \<in> set (rows out)" for y
  proof -
    obtain raw where raw: "y = ?f raw"
      using y first_pass(2) [OF assms(1,2)] set_passed [of L df] by blast
    show ?thesis
      unfolding raw
    proof (rule clean_row_again)
      fix c v
      assume "c \<in> set NUTRIENT_COLS" "cell_of (?f raw) c = NumV v"
      then show "to_numeric L (numeric_col L c (rows out)) (strip (rstrip ''^'' (num_str L v))) =
                   Some v"
        using assms(3) y raw by (auto simp: reads_back_def)
    qed
  qed
  then have "map (\<lambda>r. r(LABEL := None)) (rows ?out') = map (\<lambda>r. r(LABEL := None)) (rows out)"
    by simp
  then show ?thesis
    using eq by (intro exI [of _ ?out'] exI [of _ printed'] conjI) simp_all
qed

text \<open>
  On the table \<open>once\<close> and its cleaned form \<open>once_out\<close>.
\<close>

theorem second_pass_keeps_all_but_label_witness:
  "sorts py \<and> reads_back py once_out \<and>
   (\<exists>printed. clean py once True = Inr (once_out, printed)) \<and>
   (\<exists>out' printed'. clean py once_out True = Inr (out', printed') \<and>
      columns out' = columns once_out \<and>
      length (rows out') = length (rows once_out) \<and>
      map (\<lambda>r. r(LABEL := None)) (rows out') = map (\<lambda>r. r(LABEL := None)) (rows once_out))"
proof -
  obtain printed where eq: "clean py once True = Inr (once_out, printed)"
    using once_clean by blast
  note main = second_pass_keeps_all_but_label [OF py_sorts eq once_reads_back, of True]
  show ?thesis
    by (intro conjI) (fact py_sorts once_reads_back once_clean main)+
qed

text \<open>
  Claim C5 as stated fails: cleaning the cleaned table again turns the label of its row
  from 1 into 0, since the caret that set it was in the \<open>calories\<close> cell, which is a
  number by then.
\<close>

theorem second_pass_label_counterexample:
  "\<exists>out printed out' printed'.
     clean py once True = Inr (out, printed) \<and> clean py out True = Inr (out', printed') \<and>
     to_lists out = [[Str ''1'', Str ''milk'', NumV 50, BoolV False, IntV 1]] \<and>
     to_lists out' = [[Str ''1'', Str ''milk'', NumV 50, BoolV False, IntV 0]]"
proof -
  let ?y = "clean_row py (rows once) demo_cols (demo_row (Str ''1'') (Str ''milk'') (Str ''50^'') (Str ''0''))"
  let ?out' = "\<lparr>columns = columns once_out,
      rows = map (clean_row py (rows once_out) (columns once)) (rows once_out)\<rparr>"
  obtain printed where eq: "clean py once True = Inr (once_out, printed)"
    using once_clean by blast
  obtain printed' where eq': "clean py once_out True = Inr (?out', printed')"
    using clean_twice [OF py_sorts eq] by blast
  have "map (cell_of (clean_row py [?y] demo_cols ?y))
          [''gtin'', ''ingredients_text'', ''calories'', ''is_seed_oil'', ''label_is_anomaly''] =
        [astype_string py (Str ''1''), astype_string py (Str ''milk''),
         nutrient_cell py (numeric_col py ''calories'' [?y]) (NumV 50),
         bool_cell py (BoolV False),
         IntV (if has_caret py (Str ''milk'') \<or> has_caret py (NumV 50) \<or>
                  has_caret py (BoolV False) then 1 else 0)]"
    by (simp only: list.map demo_cells [of py "[?y]" ?y, unfolded LABEL_def] once_cells)
  also have "\<dots> = [Str ''1'', Str ''milk'', NumV 50, BoolV False, IntV 0]"
    by (simp add: astype_string_def nutrient_cell_def numeric_val_def to_numeric_cell_def
        fillna_def bool_cell_def bool_map_def has_caret_def string_defs py_def parse_int_def
        digit_val_def str_int_50)
  finally have "to_lists ?out' = [[Str ''1'', Str ''milk'', NumV 50, BoolV False, IntV 0]]"
    by (simp add: to_lists_def once_out_def once_def)
  then show ?thesis
    using eq eq' once_values
    by (intro exI [of _ once_out] exI [of _ printed] exI [of _ ?out'] exI [of _ printed'] conjI)
qed

text \<open>
  Claim C6, as amended. Where \<^verbatim>\<open>pd.to_numeric\<close> reads \<^verbatim>\<open>"50"\<close>, the one string of its
  column, as the number \<open>fifty\<close> (and the sort of a single row leaves it in place), the
  one row of the scenario comes out
  with \<open>calories\<close> equal to \<open>fifty\<close>, \<open>label_is_anomaly\<close> equal to 1 and
  \<open>ingredients_text\<close> equal to \<^verbatim>\<open>"milk^"\<close>, as it was.
\<close>

theorem scenario_output:
  assumes "to_numeric L [''50''] ''50'' = Some fifty" and "argsort L [''123''] = [0]"
  shows "\<exists>out printed. clean L scenario verbose = Inr (out, printed) \<and>
           columns out = [''gtin'', ''ingredients_text'', ''calories'', ''label_is_anomaly''] \<and>
           to_lists out = [[Str ''123'', Str ''milk^'', NumV fifty, IntV 1]]"
proof -
  obtain printed where eq: "clean L scenario verbose =
     Inr (\<lparr>columns = out_columns scenario_cols,
           rows = [clean_row L [scenario_row] scenario_cols scenario_row]\<rparr>, printed)"
    using scenario_clean [OF assms(2)] by blast
  show ?thesis
    using eq scenario_values [OF assms(1)]
    by (intro exI [of _ "\<lparr>columns = out_columns scenario_cols,
           rows = [clean_row L [scenario_row] scenario_cols scenario_row]\<rparr>"] exI [of _ printed] conjI)
      (simp_all add: to_lists_def scenario_out_columns)
qed

text \<open>
  With \<open>py\<close>, which reads \<^verbatim>\<open>"50"\<close> as 50.
\<close>

theorem scenario_output_witness:
  "to_numeric py [''50''] ''50'' = Some 50 \<and> argsort py [''123''] = [0] \<and>
   (\<exists>out printed. clean py scenario True = Inr (out, printed) \<and>
      columns out = [''gtin'', ''ingredients_text'', ''calories'', ''label_is_anomaly''] \<and>
      to_lists out = [[Str ''123'', Str ''milk^'', NumV 50, IntV 1]])"
  using scenario_output [OF py_fifty py_argsort_one, of True] py_fifty py_argsort_one
  by simp

text \<open>
  Claim C6 as stated fails: the caret of the text cell is still there in the result.
\<close>

theorem scenario_caret_kept_counterexample:
  "\<exists>out printed. clean py scenario True = Inr (out, printed) \<and>
     map (\<lambda>r. cell_of r ''ingredients_text'') (rows out) = [Str ''milk^''] \<and>
     endswith ''milk^'' ''^''"
proof -
  obtain printed where eq: "clean py scenario True =
     Inr (\<lparr>columns = out_columns scenario_cols,
           rows = [clean_row py [scenario_row] scenario_cols scenario_row]\<rparr>, printed)"
    using scenario_clean [OF py_argsort_one] by blast
  have "endswith ''milk^'' ''^''"
    by (simp add: endswith_def)
  then show ?thesis
    using eq scenario_values [OF py_fifty]
    by (intro exI [of _ "\<lparr>columns = out_columns scenario_cols,
           rows = [clean_row py [scenario_row] scenario_cols scenario_row]\<rparr>"] exI [of _ printed] conjI)
      simp_all
qed

text \<open>
  Claim C7. In every row of the result and every Tag or Flag column of the input, the
  value is a boolean: true if the raw cell's string is, in upper case, \<^verbatim>\<open>"TRUE"\<close> or
  \<^verbatim>\<open>"1"\<close>, and false for every other cell, a missing one included. \<^verbatim>\<open>"FALSE"\<close> and
  \<^verbatim>\<open>"0"\<close> are among the others, and no case of the coercion raises.
\<close>

theorem boolean_coercion:
  assumes "clean L df verbose = Inr (out, printed)"
    and "c \<in> set (TAG_COLS @ FLAG_COLS)" and "c \<in> set (columns df)"
  shows "\<exists>src. set src \<subseteq> set (rows df) \<and> rows out = map (clean_row L (rows df) (columns df)) src \<and>
           list_all2
             (\<lambda>raw r.
                cell_of r c =
                  BoolV (upper (astype_str L (cell_of raw c)) = ''TRUE'' \<or>
                         upper (astype_str L (cell_of raw c)) = ''1'') \<and>
                (isna (cell_of raw c) \<longrightarrow> cell_of r c = BoolV False))
             src (rows out)"
proof -
  obtain src where src: "set src \<subseteq> set (rows df)" "rows out = map (clean_row L (rows df) (columns df)) src"
    using clean_sources(2) [OF assms(1)] by blast
  have c: "c \<in> set bool_cols"
    using assms(2) by (simp add: bool_cols_def)
  have "cell_of (clean_row L (rows df) (columns df) raw) c = bool_cell L (cell_of raw c)" for raw
    by (rule clean_row_bool [OF c assms(3)])
  then show ?thesis
    using src by (auto simp: list_all2_map_same bool_cell_eq [symmetric] bool_cell_missing)
qed

text \<open>
  On the example table the \<open>is_seed_oil\<close> of the result are false (from \<^verbatim>\<open>"YES"\<close>) and
  true (from \<^verbatim>\<open>"true"\<close>).
\<close>

theorem boolean_coercion_witness:
  "\<exists>out printed. clean py demo True = Inr (out, printed) \<and>
     ''is_seed_oil'' \<in> set (TAG_COLS @ FLAG_COLS) \<and> ''is_seed_oil'' \<in> set (columns demo) \<and>
     map (\<lambda>r. cell_of r ''is_seed_oil'') (rows out) = [BoolV False, BoolV True] \<and>
     (\<exists>src. set src \<subseteq> set (rows demo) \<and> rows out = map (clean_row py (rows demo) (columns demo)) src \<and>
        list_all2
          (\<lambda>raw r.
             cell_of r ''is_seed_oil'' =
               BoolV (upper (astype_str py (cell_of raw ''is_seed_oil'')) = ''TRUE'' \<or>
                      upper (astype_str py (cell_of raw ''is_seed_oil'')) = ''1'') \<and>
             (isna (cell_of raw ''is_seed_oil'') \<longrightarrow> cell_of r ''is_seed_oil'' = BoolV False))
          src (rows out))"
proof -
  obtain printed where eq: "clean py demo True = Inr (demo_out, printed)"
    using demo_clean by blast
  have mem: "''is_seed_oil'' \<in> set (TAG_COLS @ FLAG_COLS)" "''is_seed_oil'' \<in> set (columns demo)"
    using demo_schema(4) demo_in_cols(4) by (simp_all add: demo_def bool_cols_def)
  have vals: "map (\<lambda>r. cell_of r ''is_seed_oil'') (rows demo_out) = [BoolV False, BoolV True]"
    using demo_values by (simp add: to_lists_def demo_out_def)
  note main = boolean_coercion [OF eq mem]
  show ?thesis
    by (intro exI [of _ demo_out] exI [of _ printed] conjI) (fact eq mem vals main)+
qed

text \<open>
  Claim C8, as amended. With an indexer that stays within the table, \<^verbatim>\<open>clean\<close> raises
  \<^verbatim>\<open>KeyError\<close> for \<open>gtin\<close> exactly when the input has no \<open>gtin\<close> column, and returns a
  table exactly when it has one: no value of a cell makes it raise, and the number of rows
  plays no part.
\<close>

theorem raises_iff_no_gtin_column:
  assumes "in_range L"
  shows "(clean L df verbose = Inl (KeyError ''gtin'') \<longleftrightarrow> ''gtin'' \<notin> set (columns df)) \<and>
         ((\<exists>out printed. clean L df verbose = Inr (out, printed)) \<longleftrightarrow> ''gtin'' \<in> set (columns df))"
proof (cases "''gtin'' \<in> set (columns df)")
  case False
  then have "map_sum id fst (clean L df verbose) = Inl (KeyError ''gtin'')"
    by (simp add: clean_data)
  then have "clean L df verbose = Inl (KeyError ''gtin'')"
    by (simp add: map_sum_fst_Inl)
  with False show ?thesis by simp
next
  case True
  have "take_rows (argsort L (map gtin_key (passed L df))) (passed L df) =
          Inr (map (\<lambda>i. passed L df ! i) (argsort L (map gtin_key (passed L df))))"
    using assms by (rule take_rows_in_range) simp
  then have "\<exists>out. map_sum id fst (clean L df verbose) = Inr out"
    using True by (simp add: clean_data)
  then have "\<exists>out printed. clean L df verbose = Inr (out, printed)"
    by (cases "clean L df verbose") auto
  with True show ?thesis by auto
qed

text \<open>
  A table without the identifier column raises, the example table is cleaned.
\<close>

theorem raises_iff_no_gtin_column_witness:
  "in_range py \<and>
   ''gtin'' \<notin> set (columns no_gtin) \<and> clean py no_gtin True = Inl (KeyError ''gtin'') \<and>
   ''gtin'' \<in> set (columns demo) \<and> (\<exists>out printed. clean py demo True = Inr (out, printed))"
  using raises_iff_no_gtin_column [OF py_in_range, of no_gtin True]
    raises_iff_no_gtin_column [OF py_in_range, of demo True] py_in_range
  by (simp add: no_gtin_def demo_def demo_in_cols)

text \<open>
  Claim C8 as stated fails: a table with no rows and no identifier column raises as well.
\<close>

theorem empty_input_raises_counterexample:
  "rows empty_table = [] \<and> clean py empty_table True = Inl (KeyError ''gtin'')"
proof -
  have "map_sum id fst (clean py empty_table True) = Inl (KeyError ''gtin'')"
    by (simp add: clean_data empty_table_def)
  then show ?thesis
    by (simp add: map_sum_fst_Inl empty_table_def)
qed

text \<open>
  Claim C9. \<^verbatim>\<open>clean\<close> returns the same table, or raises the same exception, with
  \<^verbatim>\<open>verbose\<close> set and not set; it prints nothing when \<^verbatim>\<open>verbose\<close> is not set and six
  lines when it is.
\<close>

theorem verbose_only_prints:
  "map_sum id fst (clean L df True) = map_sum id fst (clean L df False) \<and>
   map_sum id snd (clean L df False) = map_sum id (\<lambda>_. []) (clean L df False) \<and>
   map_sum id (\<lambda>r. length (snd r)) (clean L df True) = map_sum id (\<lambda>_. 6) (clean L df True)"
proof (intro conjI)
  show "map_sum id fst (clean L df True) = map_sum id fst (clean L df False)"
    by (simp add: clean_data)
  show "map_sum id snd (clean L df False) = map_sum id (\<lambda>_. []) (clean L df False)"
    by (simp add: clean_def Let_def split: sum.splits)
  show "map_sum id (\<lambda>r. length (snd r)) (clean L df True) = map_sum id (\<lambda>_. 6) (clean L df True)"
    by (simp add: clean_def Let_def summary_def split: sum.splits)
qed

text \<open>
  On the example table.
\<close>

theorem verbose_only_prints_witness:
  "map_sum id fst (clean py demo True) = Inr demo_out \<and>
   map_sum id fst (clean py demo False) = Inr demo_out \<and>
   map_sum id snd (clean py demo False) = Inr [] \<and>
   map_sum id (\<lambda>r. length (snd r)) (clean py demo True) = Inr 6"
proof -
  obtain p1 where t: "clean py demo True = Inr (demo_out, p1)"
    using demo_clean by blast
  obtain p2 where f: "clean py demo False = Inr (demo_out, p2)"
    using demo_clean by blast
  show ?thesis
    using verbose_only_prints [of py demo] by (simp add: t f)
qed

text \<open>
  Claim C10. \<^verbatim>\<open>clean\<close> gives the same result for a table and for that table without its
  \<open>label_is_anomaly\<close> column, and the label of every row of the result is 0 or 1.
\<close>

theorem input_label_discarded:
  "clean L df verbose =
     clean L \<lparr>columns = removeAll LABEL (columns df),
              rows = map (\<lambda>r. r(LABEL := None)) (rows df)\<rparr> verbose \<and>
   (\<forall>out printed r. clean L df verbose = Inr (out, printed) \<and> r \<in> set (rows out) \<longrightarrow>
      cell_of r LABEL = IntV 0 \<or> cell_of r LABEL = IntV 1)"
proof
  have "len \<lparr>columns = removeAll LABEL (columns df), rows = map (\<lambda>r. r(LABEL := None)) (rows df)\<rparr> = len df"
    by (simp add: len_def)
  then show "clean L df verbose =
     clean L \<lparr>columns = removeAll LABEL (columns df),
              rows = map (\<lambda>r. r(LABEL := None)) (rows df)\<rparr> verbose"
    by (simp add: clean_def coerce_without_label)
  show "\<forall>out printed r. clean L df verbose = Inr (out, printed) \<and> r \<in> set (rows out) \<longrightarrow>
      cell_of r LABEL = IntV 0 \<or> cell_of r LABEL = IntV 1"
  proof (intro allI impI)
    fix out printed r
    assume a: "clean L df verbose = Inr (out, printed) \<and> r \<in> set (rows out)"
    then obtain src where "rows out = map (clean_row L (rows df) (columns df)) src"
      using clean_sources(2) by blast
    with a obtain raw where "r = clean_row L (rows df) (columns df) raw"
      by auto
    then show "cell_of r LABEL = IntV 0 \<or> cell_of r LABEL = IntV 1"
      by (simp add: clean_row_label)
  qed
qed

text \<open>
  On the example table with a \<open>label_is_anomaly\<close> column that holds the string
  \<^verbatim>\<open>"garbage"\<close> in each row.
\<close>

theorem input_label_discarded_witness:
  "\<exists>out printed. clean py demo_labelled True = Inr (out, printed) \<and>
     clean py demo_labelled True = clean py demo True \<and>
     map (\<lambda>r. cell_of r LABEL) (rows out) = [IntV 1, IntV 0] \<and>
     hd (rows out) \<in> set (rows out) \<and>
     (cell_of (hd (rows out)) LABEL = IntV 0 \<or> cell_of (hd (rows out)) LABEL = IntV 1)"
proof -
  obtain printed where eq: "clean py demo True = Inr (demo_out, printed)"
    using demo_clean by blast
  have "LABEL \<notin> set demo_cols"
    by (simp add: demo_cols_def LABEL_def)
  moreover have "(demo_row g i c s)(LABEL := None) = demo_row g i c s" for g i c s :: "int cell"
    by (rule ext) (simp add: demo_row_def LABEL_def)
  ultimately have "\<lparr>columns = removeAll LABEL (columns demo_labelled),
      rows = map (\<lambda>r. r(LABEL := None)) (rows demo_labelled)\<rparr> = demo"
    by (simp add: demo_labelled_def demo_def)
  with input_label_discarded [of py demo_labelled True]
  have same: "clean py demo_labelled True = clean py demo True"
    and bit: "\<And>out printed r. clean py demo_labelled True = Inr (out, printed) \<Longrightarrow>
       r \<in> set (rows out) \<Longrightarrow> cell_of r LABEL = IntV 0 \<or> cell_of r LABEL = IntV 1"
    by simp_all
  have eq': "clean py demo_labelled True = Inr (demo_out, printed)"
    using same eq by simp
  have mem: "hd (rows demo_out) \<in> set (rows demo_out)"
    by (simp add: demo_out_def)
  have labels: "map (\<lambda>r. cell_of r LABEL) (rows demo_out) = [IntV 1, IntV 0]"
    using demo_values by (simp add: to_lists_def demo_out_def LABEL_def)
  note b = bit [OF eq' mem]
  show ?thesis
    by (intro exI [of _ demo_out] exI [of _ printed] conjI) (fact eq' same labels mem b)+
qed

end
